theory Spec2Isabelle
  imports Main "HOL-Library.Sublist"
begin

section \<open>Values handled by the layer templates of \<^verbatim>\<open>torchquantum/layer/nlocal.py\<close>\<close>

text \<open>
  The templates never look inside a gate operation or a layer class: they store them and
  pass them on. The gate classes the presets name are constructors of \<open>gate\<close>; any other
  operation is \<open>Gate name\<close>. The layer classes the source names are constructors of
  \<open>layer_kind\<close>; any other \<^verbatim>\<open>QuantumModule\<close> class is \<open>Module name\<close>.
\<close>

datatype gate = RY | RZ | RXX | RYY | CNOT | Gate string

datatype layer_kind = Op1QAllLayer | Op2QAllLayer | Op2QDenseLayer | Module string

text \<open>
  The \<^verbatim>\<open>rotation_layer\<close> and \<^verbatim>\<open>entanglement_layer\<close> arguments hold either a \<^verbatim>\<open>str\<close>
  (\<open>Name\<close>) or a layer class (\<open>Layer\<close>): \<^verbatim>\<open>TwoLocal.__init__\<close> compares the argument
  with four string literals and otherwise keeps it as it is.
\<close>

datatype layer_ref = Name string | Layer layer_kind

text \<open>Values of the keyword dictionaries; a dictionary with \<^verbatim>\<open>str\<close> keys is a map.\<close>

datatype pyval = PyBool bool | PyInt int | PyStr string

type_synonym params = "string \<rightharpoonup> pyval"

text \<open>
  The exceptions: Python's \<^verbatim>\<open>TypeError\<close> of a call expression, the
  \<^verbatim>\<open>AttributeError\<close> of an attribute assignment, or whatever a layer class raises from
  its constructor.
\<close>

datatype error = TypeError | AttributeError | LayerError string

text \<open>
  The layer classes live in \<^verbatim>\<open>torchquantum.layers\<close>, outside this file. Their
  constructors are a parameter of the model: \<open>ctor k g n kwargs\<close> is the outcome of
  \<^verbatim>\<open>k(op=g, n_wires=n, **kwargs)\<close>, a raised exception or the constructed block.
\<close>

type_synonym 'b ctor = "layer_kind \<Rightarrow> gate \<Rightarrow> int \<Rightarrow> params \<Rightarrow> error + 'b"

text \<open>
  The object \<^verbatim>\<open>self\<close>: the attributes \<^verbatim>\<open>NLocal.__init__\<close> assigns, and \<^verbatim>\<open>n_wires\<close>,
  which the base class \<^verbatim>\<open>LayerTemplate0\<close> reads from \<^verbatim>\<open>arch\<close>. Further attributes of
  the object are the extension of the record. The two operation lists have type \<open>'l\<close> and
  the two parameter dictionaries type \<open>'d\<close>: in the first part of this theory the
  attributes hold the list and the dictionary themselves (\<open>'b NLocal\<close>); in the second
  part, where lists and dictionaries are objects of a store, they hold references.
\<close>

record ('l, 'd, 'b) attrs =
  rotation_ops :: 'l
  rotation_layer :: layer_ref
  rotation_layer_params :: 'd
  entanglement_ops :: 'l
  entanglement_layer :: layer_ref
  entanglement_layer_params :: 'd
  initial_circuit :: "'b option"
  skip_final_rotation_layer :: bool
  reps :: int
  n_wires :: int

type_synonym 'b NLocal = "(gate list, params, 'b) attrs"

type_synonym ('b, 'z) NLocal_scheme = "(gate list, params, 'b, 'z) attrs_scheme"

section \<open>\<^verbatim>\<open>NLocal\<close>: building the blocks\<close>

text \<open>
  The call \<^verbatim>\<open>layer(op=g, n_wires=n, **kwargs)\<close>. A \<^verbatim>\<open>str\<close> is not callable, and a key
  \<^verbatim>\<open>op\<close> or \<^verbatim>\<open>n_wires\<close> in the unpacked dictionary repeats a keyword argument: both are
  a \<^verbatim>\<open>TypeError\<close>. The unpacking hands the callee a fresh dictionary.
\<close>

definition call_layer :: "'b ctor \<Rightarrow> layer_ref \<Rightarrow> gate \<Rightarrow> int \<Rightarrow> params \<Rightarrow> error + 'b" where
  "call_layer ctor layer g n kwargs =
     (case layer of
        Name s \<Rightarrow> Inl TypeError
      | Layer k \<Rightarrow>
          if kwargs ''op'' = None \<and> kwargs ''n_wires'' = None then ctor k g n kwargs
          else Inl TypeError)"

text \<open>
  The loop of \<^verbatim>\<open>build_rotation_block\<close>: \<open>rotation_layers\<close> is the local list, appended
  to once per operation; an exception leaves the loop.
\<close>

fun rotation_loop ::
  "'b ctor \<Rightarrow> ('b, 'z) NLocal_scheme \<Rightarrow> 'b list \<Rightarrow> gate list \<Rightarrow> error + 'b list" where
  "rotation_loop ctor self rotation_layers [] = Inr rotation_layers"
| "rotation_loop ctor self rotation_layers (rot # rest) =
     (case call_layer ctor (rotation_layer self) rot (n_wires self) (rotation_layer_params self) of
        Inl e \<Rightarrow> Inl e
      | Inr layer \<Rightarrow> rotation_loop ctor self (rotation_layers @ [layer]) rest)"

text \<open>
  A method returns its result (or the exception) together with the object it was called
  on, as the call leaves it.
\<close>

definition build_rotation_block ::
  "'b ctor \<Rightarrow> ('b, 'z) NLocal_scheme \<Rightarrow> (error + 'b list) \<times> ('b, 'z) NLocal_scheme" where
  "build_rotation_block ctor self = (rotation_loop ctor self [] (rotation_ops self), self)"

fun entanglement_loop ::
  "'b ctor \<Rightarrow> ('b, 'z) NLocal_scheme \<Rightarrow> 'b list \<Rightarrow> gate list \<Rightarrow> error + 'b list" where
  "entanglement_loop ctor self entanglement_layers [] = Inr entanglement_layers"
| "entanglement_loop ctor self entanglement_layers (entanglement # rest) =
     (case call_layer ctor (entanglement_layer self) entanglement (n_wires self)
             (entanglement_layer_params self) of
        Inl e \<Rightarrow> Inl e
      | Inr layer \<Rightarrow> entanglement_loop ctor self (entanglement_layers @ [layer]) rest)"

definition build_entanglement_block ::
  "'b ctor \<Rightarrow> ('b, 'z) NLocal_scheme \<Rightarrow> (error + 'b list) \<times> ('b, 'z) NLocal_scheme" where
  "build_entanglement_block ctor self =
     (entanglement_loop ctor self [] (entanglement_ops self), self)"

text \<open>
  The loop \<^verbatim>\<open>for _ in range(self.reps)\<close> of \<^verbatim>\<open>build_layers\<close>, by the number of
  iterations left. Each iteration calls the two methods on the object and extends
  \<open>layers_all\<close> by what they return.
\<close>

fun reps_loop ::
  "'b ctor \<Rightarrow> nat \<Rightarrow> 'b list \<Rightarrow> ('b, 'z) NLocal_scheme
     \<Rightarrow> (error + 'b list) \<times> ('b, 'z) NLocal_scheme" where
  "reps_loop ctor 0 layers_all self = (Inr layers_all, self)"
| "reps_loop ctor (Suc k) layers_all self =
     (case build_rotation_block ctor self of
        (Inl e, self1) \<Rightarrow> (Inl e, self1)
      | (Inr rs, self1) \<Rightarrow>
          (case build_entanglement_block ctor self1 of
             (Inl e, self2) \<Rightarrow> (Inl e, self2)
           | (Inr es, self2) \<Rightarrow> reps_loop ctor k ((layers_all @ rs) @ es) self2))"

text \<open>
  \<^verbatim>\<open>build_layers\<close>. \<^verbatim>\<open>range(self.reps)\<close> is empty for \<open>reps \<le> 0\<close>, which is
  \<open>nat (reps self)\<close> iterations.
\<close>

definition build_layers ::
  "'b ctor \<Rightarrow> ('b, 'z) NLocal_scheme \<Rightarrow> (error + 'b list) \<times> ('b, 'z) NLocal_scheme" where
  "build_layers ctor self =
     (let layers_all = (case initial_circuit self of None \<Rightarrow> [] | Some c \<Rightarrow> [c]) in
      case reps_loop ctor (nat (reps self)) layers_all self of
        (Inl e, self1) \<Rightarrow> (Inl e, self1)
      | (Inr layers_all, self1) \<Rightarrow>
          if \<not> skip_final_rotation_layer self1 then
            (case build_rotation_block ctor self1 of
               (Inl e, self2) \<Rightarrow> (Inl e, self2)
             | (Inr rs, self2) \<Rightarrow> (Inr (layers_all @ rs), self2))
          else (Inr layers_all, self1))"

section \<open>The constructors: \<^verbatim>\<open>NLocal\<close>, \<^verbatim>\<open>TwoLocal\<close> and the presets\<close>

text \<open>
  A keyword argument with a default value is an \<open>option\<close>: \<open>None\<close> when the caller leaves
  it out. The argument \<open>n\<close> is \<^verbatim>\<open>arch["n_wires"]\<close>, which \<^verbatim>\<open>LayerTemplate0.__init__\<close>
  stores as \<^verbatim>\<open>self.n_wires\<close>.

  \<^verbatim>\<open>NLocal.__init__\<close> assigns \<^verbatim>\<open>self.initial_circuit\<close> (line 69) before it calls the
  base class constructor (line 74). The base class is a \<^verbatim>\<open>torch.nn.Module\<close>, which
  refuses to bind a module to an attribute before \<^verbatim>\<open>Module.__init__\<close> has run: for
  every \<^verbatim>\<open>initial_circuit\<close> that is a \<^verbatim>\<open>QuantumModule\<close> the constructor raises
  \<^verbatim>\<open>AttributeError\<close>, and only \<^verbatim>\<open>None\<close> gets through. An object can still be given an
  initial circuit by assigning the attribute after construction.
\<close>

fun kwarg :: "'a option \<Rightarrow> 'a \<Rightarrow> 'a" where
  "kwarg None d = d"
| "kwarg (Some v) d = v"

definition NLocal_init ::
  "gate list \<Rightarrow> gate list \<Rightarrow> int \<Rightarrow> layer_ref option \<Rightarrow> layer_ref option \<Rightarrow> int option
     \<Rightarrow> params option \<Rightarrow> params option \<Rightarrow> 'b option \<Rightarrow> bool option
     \<Rightarrow> error + 'b NLocal" where
  "NLocal_init rot_ops ent_ops n rot_layer ent_layer r rot_params ent_params init skip =
     (case init of
        Some c \<Rightarrow> Inl AttributeError
      | None \<Rightarrow>
          Inr \<lparr> rotation_ops = rot_ops,
                rotation_layer = kwarg rot_layer (Layer Op1QAllLayer),
                rotation_layer_params = kwarg rot_params Map.empty,
                entanglement_ops = ent_ops,
                entanglement_layer = kwarg ent_layer (Layer Op2QAllLayer),
                entanglement_layer_params = kwarg ent_params Map.empty,
                initial_circuit = None,
                skip_final_rotation_layer = kwarg skip False,
                reps = kwarg r 1,
                n_wires = n \<rparr>)"

text \<open>
  The \<^verbatim>\<open>if\<close>/\<^verbatim>\<open>elif\<close> chain at the head of \<^verbatim>\<open>TwoLocal.__init__\<close>: it rebinds
  \<^verbatim>\<open>entanglement_layer\<close> and, in two branches, \<^verbatim>\<open>entanglement_layer_params\<close>. There is
  no \<^verbatim>\<open>else\<close>: any other value leaves both as they are.
\<close>

definition entanglement_type :: "layer_ref \<Rightarrow> params \<Rightarrow> layer_ref \<times> params" where
  "entanglement_type ent_layer ent_params =
     (if ent_layer = Name ''linear'' then (Layer Op2QAllLayer, ent_params)
      else if ent_layer = Name ''reverse_linear'' then
        (Layer Op2QAllLayer, [''wire_reverse'' \<mapsto> PyBool True])
      else if ent_layer = Name ''circular'' then
        (Layer Op2QAllLayer, [''circular'' \<mapsto> PyBool True])
      else if ent_layer = Name ''full'' then (Layer Op2QDenseLayer, ent_params)
      else (ent_layer, ent_params))"

definition TwoLocal_init ::
  "gate list \<Rightarrow> gate list \<Rightarrow> int \<Rightarrow> layer_ref option \<Rightarrow> layer_ref option \<Rightarrow> int option
     \<Rightarrow> params option \<Rightarrow> 'b option \<Rightarrow> bool option \<Rightarrow> error + 'b NLocal" where
  "TwoLocal_init rot_ops ent_ops n rot_layer ent_layer r ent_params init skip =
     (let (ent_layer', ent_params') =
            entanglement_type (kwarg ent_layer (Name ''linear'')) (kwarg ent_params Map.empty)
      in NLocal_init rot_ops ent_ops n
           (Some (kwarg rot_layer (Layer Op1QAllLayer)))
           (Some ent_layer')
           (Some (kwarg r 1))
           (Some [''has_params'' \<mapsto> PyBool True, ''trainable'' \<mapsto> PyBool True])
           (Some ent_params')
           init
           (Some (kwarg skip False)))"

definition ExcitationPreserving ::
  "int \<Rightarrow> layer_ref option \<Rightarrow> int option \<Rightarrow> bool option \<Rightarrow> error + 'b NLocal" where
  "ExcitationPreserving n ent_layer r skip =
     TwoLocal_init [RZ] [RXX, RYY] n None
       (Some (kwarg ent_layer (Name ''full'')))
       (Some (kwarg r 3))
       (Some [''has_params'' \<mapsto> PyBool True, ''trainable'' \<mapsto> PyBool True])
       None
       (Some (kwarg skip False))"

definition EfficientSU2 ::
  "int \<Rightarrow> layer_ref option \<Rightarrow> int option \<Rightarrow> bool option \<Rightarrow> error + 'b NLocal" where
  "EfficientSU2 n ent_layer r skip =
     TwoLocal_init [RY, RZ] [CNOT] n None
       (Some (kwarg ent_layer (Name ''reverse_linear'')))
       (Some (kwarg r 3))
       None
       None
       (Some (kwarg skip False))"

definition RealAmplitudes ::
  "int \<Rightarrow> layer_ref option \<Rightarrow> int option \<Rightarrow> bool option \<Rightarrow> error + 'b NLocal" where
  "RealAmplitudes n ent_layer r skip =
     TwoLocal_init [RY] [CNOT] n None
       (Some (kwarg ent_layer (Name ''reverse_linear'')))
       (Some (kwarg r 3))
       None
       None
       (Some (kwarg skip False))"

section \<open>A block as the constructor call that built it\<close>

text \<open>
  Modelled from the spec: the layer-kind constructors are external collaborators, invoked
  as \<^verbatim>\<open>construct(op, wireCount, **extraParams) -> Block\<close>. To speak of the arguments a
  block was constructed with, \<open>construct\<close> accepts every call and returns the call itself;
  \<open>Circuit\<close> is a block supplied from outside as \<^verbatim>\<open>initial_circuit\<close>.
\<close>

datatype block = Built layer_kind gate int params | Circuit string

definition construct :: "block ctor" where
  "construct k g n kwargs = Inr (Built k g n kwargs)"

section \<open>The same methods on a store of objects\<close>

text \<open>
  In Python the two operation lists and the two parameter dictionaries are objects that
  the template only refers to: the default \<^verbatim>\<open>{}\<close> of a constructor is one dictionary
  shared by every call, a caller's list may be shared with other templates, and a layer
  constructor is code of another module that runs in the middle of a build. This second
  model of the three methods keeps these objects in a store. A reference is an address
  of the store; the element of a list is an operation or a block.
\<close>

type_synonym ref = nat

datatype 'b item = Op gate | Blk 'b

text \<open>
  The store: the template objects (their attributes, with references for the lists and
  dictionaries), the dictionaries, the lists, and \<open>world\<close>, the state of everything else
  (for instance the random generator that a layer draws its parameters from). An address
  is an index; a new object gets the next free index.
\<close>

record ('b, 'w) heap =
  objects :: "(ref, ref, 'b) attrs list"
  dicts :: "params list"
  pylists :: "'b item list list"
  world :: 'w

text \<open>
  A layer constructor on the store. It is handed the operation, the wire count and a
  reference to the dictionary of its keyword arguments, and it runs on the whole store: it
  may read and write anything.
\<close>

type_synonym ('b, 'w) hctor =
  "layer_kind \<Rightarrow> 'b item \<Rightarrow> int \<Rightarrow> ref \<Rightarrow> ('b, 'w) heap \<Rightarrow> (error + 'b) \<times> ('b, 'w) heap"

text \<open>
  Creating a dictionary with given entries (\<^verbatim>\<open>**d\<close> in a call), creating an empty list
  (\<^verbatim>\<open>[]\<close>, \<^verbatim>\<open>tq.QuantumModuleList()\<close>), \<^verbatim>\<open>r.append(x)\<close> and \<^verbatim>\<open>r.extend(s)\<close>.
\<close>

definition new_dict :: "params \<Rightarrow> ('b, 'w) heap \<Rightarrow> ref \<times> ('b, 'w) heap" where
  "new_dict d h = (length (dicts h), h\<lparr>dicts := dicts h @ [d]\<rparr>)"

definition new_list :: "('b, 'w) heap \<Rightarrow> ref \<times> ('b, 'w) heap" where
  "new_list h = (length (pylists h), h\<lparr>pylists := pylists h @ [[]]\<rparr>)"

definition append_to :: "ref \<Rightarrow> 'b item \<Rightarrow> ('b, 'w) heap \<Rightarrow> ('b, 'w) heap" where
  "append_to r x h = h\<lparr>pylists := (pylists h)[r := pylists h ! r @ [x]]\<rparr>"

definition extend_by :: "ref \<Rightarrow> ref \<Rightarrow> ('b, 'w) heap \<Rightarrow> ('b, 'w) heap" where
  "extend_by r s h = h\<lparr>pylists := (pylists h)[r := pylists h ! r @ pylists h ! s]\<rparr>"

text \<open>
  The call \<^verbatim>\<open>layer(op=g, n_wires=n, **d)\<close>, with \<open>d\<close> the reference the attribute
  holds. The unpacking copies the entries of \<open>d\<close> into a new dictionary, and it is the
  new dictionary that the callee receives.
\<close>

definition call_layer_h ::
  "('b, 'w) hctor \<Rightarrow> layer_ref \<Rightarrow> 'b item \<Rightarrow> int \<Rightarrow> ref \<Rightarrow> ('b, 'w) heap
     \<Rightarrow> (error + 'b) \<times> ('b, 'w) heap" where
  "call_layer_h ctor layer g n d h =
     (case layer of
        Name s \<Rightarrow> (Inl TypeError, h)
      | Layer k \<Rightarrow>
          if (dicts h ! d) ''op'' = None \<and> (dicts h ! d) ''n_wires'' = None then
            (case new_dict (dicts h ! d) h of (kwargs, h1) \<Rightarrow> ctor k g n kwargs h1)
          else (Inl TypeError, h))"

text \<open>
  The loop \<^verbatim>\<open>for rot in self.rotation_ops\<close>. The attribute is read once, before the
  loop; the iterator then reads the list object at index \<open>i\<close> in each round, and the
  round reads \<^verbatim>\<open>self.rotation_layer\<close>, \<^verbatim>\<open>self.n_wires\<close> and
  \<^verbatim>\<open>self.rotation_layer_params\<close> anew. A loop over a list that grows while it runs
  need not end: the result is an \<open>option\<close>, \<open>None\<close> for a loop that does not return.
\<close>

partial_function (option) rotation_loop_h ::
  "('b, 'w) hctor \<Rightarrow> ref \<Rightarrow> ref \<Rightarrow> ref \<Rightarrow> nat \<Rightarrow> ('b, 'w) heap
     \<Rightarrow> ((error + unit) \<times> ('b, 'w) heap) option" where
  "rotation_loop_h ctor self ops rotation_layers i h =
     (if i < length (pylists h ! ops) then
        (case call_layer_h ctor (rotation_layer (objects h ! self)) (pylists h ! ops ! i)
                (n_wires (objects h ! self)) (rotation_layer_params (objects h ! self)) h of
           (Inl e, h1) \<Rightarrow> Some (Inl e, h1)
         | (Inr layer, h1) \<Rightarrow>
             rotation_loop_h ctor self ops rotation_layers (Suc i)
               (append_to rotation_layers (Blk layer) h1))
      else Some (Inr (), h))"

definition build_rotation_block_h ::
  "('b, 'w) hctor \<Rightarrow> ref \<Rightarrow> ('b, 'w) heap \<Rightarrow> ((error + ref) \<times> ('b, 'w) heap) option" where
  "build_rotation_block_h ctor self h =
     (case new_list h of (rotation_layers, h1) \<Rightarrow>
        (case rotation_loop_h ctor self (rotation_ops (objects h1 ! self)) rotation_layers 0 h1 of
           None \<Rightarrow> None
         | Some (Inl e, h2) \<Rightarrow> Some (Inl e, h2)
         | Some (Inr u, h2) \<Rightarrow> Some (Inr rotation_layers, h2)))"

partial_function (option) entanglement_loop_h ::
  "('b, 'w) hctor \<Rightarrow> ref \<Rightarrow> ref \<Rightarrow> ref \<Rightarrow> nat \<Rightarrow> ('b, 'w) heap
     \<Rightarrow> ((error + unit) \<times> ('b, 'w) heap) option" where
  "entanglement_loop_h ctor self ops entanglement_layers i h =
     (if i < length (pylists h ! ops) then
        (case call_layer_h ctor (entanglement_layer (objects h ! self)) (pylists h ! ops ! i)
                (n_wires (objects h ! self)) (entanglement_layer_params (objects h ! self)) h of
           (Inl e, h1) \<Rightarrow> Some (Inl e, h1)
         | (Inr layer, h1) \<Rightarrow>
             entanglement_loop_h ctor self ops entanglement_layers (Suc i)
               (append_to entanglement_layers (Blk layer) h1))
      else Some (Inr (), h))"

definition build_entanglement_block_h ::
  "('b, 'w) hctor \<Rightarrow> ref \<Rightarrow> ('b, 'w) heap \<Rightarrow> ((error + ref) \<times> ('b, 'w) heap) option" where
  "build_entanglement_block_h ctor self h =
     (case new_list h of (entanglement_layers, h1) \<Rightarrow>
        (case entanglement_loop_h ctor self (entanglement_ops (objects h1 ! self))
                entanglement_layers 0 h1 of
           None \<Rightarrow> None
         | Some (Inl e, h2) \<Rightarrow> Some (Inl e, h2)
         | Some (Inr u, h2) \<Rightarrow> Some (Inr entanglement_layers, h2)))"

fun reps_loop_h ::
  "('b, 'w) hctor \<Rightarrow> ref \<Rightarrow> ref \<Rightarrow> nat \<Rightarrow> ('b, 'w) heap
     \<Rightarrow> ((error + unit) \<times> ('b, 'w) heap) option" where
  "reps_loop_h ctor self layers_all 0 h = Some (Inr (), h)"
| "reps_loop_h ctor self layers_all (Suc k) h =
     (case build_rotation_block_h ctor self h of
        None \<Rightarrow> None
      | Some (Inl e, h1) \<Rightarrow> Some (Inl e, h1)
      | Some (Inr rs, h1) \<Rightarrow>
          (case build_entanglement_block_h ctor self (extend_by layers_all rs h1) of
             None \<Rightarrow> None
           | Some (Inl e, h2) \<Rightarrow> Some (Inl e, h2)
           | Some (Inr es, h2) \<Rightarrow> reps_loop_h ctor self layers_all k (extend_by layers_all es h2)))"

definition build_layers_h ::
  "('b, 'w) hctor \<Rightarrow> ref \<Rightarrow> ('b, 'w) heap \<Rightarrow> ((error + ref) \<times> ('b, 'w) heap) option" where
  "build_layers_h ctor self h =
     (case new_list h of (layers_all, h0) \<Rightarrow>
        (let h1 = (case initial_circuit (objects h0 ! self) of
                     None \<Rightarrow> h0
                   | Some c \<Rightarrow> append_to layers_all (Blk c) h0)
         in case reps_loop_h ctor self layers_all (nat (reps (objects h1 ! self))) h1 of
              None \<Rightarrow> None
            | Some (Inl e, h2) \<Rightarrow> Some (Inl e, h2)
            | Some (Inr u, h2) \<Rightarrow>
                if \<not> skip_final_rotation_layer (objects h2 ! self) then
                  (case build_rotation_block_h ctor self h2 of
                     None \<Rightarrow> None
                   | Some (Inl e, h3) \<Rightarrow> Some (Inl e, h3)
                   | Some (Inr rs, h3) \<Rightarrow> Some (Inr layers_all, extend_by layers_all rs h3))
                else Some (Inr layers_all, h2)))"

text \<open>
  The references of a template object point into the store.
\<close>

definition valid :: "('b, 'w) heap \<Rightarrow> ref \<Rightarrow> bool" where
  "valid h self \<longleftrightarrow>
     self < length (objects h)
     \<and> rotation_ops (objects h ! self) < length (pylists h)
     \<and> entanglement_ops (objects h ! self) < length (pylists h)
     \<and> rotation_layer_params (objects h ! self) < length (dicts h)
     \<and> entanglement_layer_params (objects h ! self) < length (dicts h)"

text \<open>
  What is assumed of a layer constructor: of the objects that exist when it is called it
  writes at most the dictionary of keyword arguments it was handed. It may create
  objects, and it may read and change the world.
\<close>

definition confined :: "('b, 'w) hctor \<Rightarrow> bool" where
  "confined ctor \<longleftrightarrow>
     (\<forall>k g n kwargs h.
        prefix (objects h) (objects (snd (ctor k g n kwargs h)))
        \<and> prefix (pylists h) (pylists (snd (ctor k g n kwargs h)))
        \<and> length (dicts h) \<le> length (dicts (snd (ctor k g n kwargs h)))
        \<and> (\<forall>a < length (dicts h). a \<noteq> kwargs \<longrightarrow>
              dicts (snd (ctor k g n kwargs h)) ! a = dicts h ! a))"

text \<open>
  \<open>preserved h h'\<close>: every template object, dictionary and list of \<open>h\<close> is in \<open>h'\<close>, at
  its address and with its content.
\<close>

definition preserved :: "('b, 'w) heap \<Rightarrow> ('b, 'w) heap \<Rightarrow> bool" where
  "preserved h h' \<longleftrightarrow>
     prefix (objects h) (objects h') \<and> prefix (dicts h) (dicts h') \<and> prefix (pylists h) (pylists h')"

text \<open>
  The values of the fields of a template: its attributes, with the lists and
  dictionaries they refer to in place of the references.
\<close>

definition field_values :: "('b, 'w) heap \<Rightarrow> ref \<Rightarrow> ('b item list, params, 'b) attrs" where
  "field_values h self =
     \<lparr> rotation_ops = pylists h ! rotation_ops (objects h ! self),
       rotation_layer = rotation_layer (objects h ! self),
       rotation_layer_params = dicts h ! rotation_layer_params (objects h ! self),
       entanglement_ops = pylists h ! entanglement_ops (objects h ! self),
       entanglement_layer = entanglement_layer (objects h ! self),
       entanglement_layer_params = dicts h ! entanglement_layer_params (objects h ! self),
       initial_circuit = initial_circuit (objects h ! self),
       skip_final_rotation_layer = skip_final_rotation_layer (objects h ! self),
       reps = reps (objects h ! self),
       n_wires = n_wires (objects h ! self) \<rparr>"

text \<open>
  The constructor calls of a build as the spec's algorithm lists them (section 4.2, steps
  3 and 4), as a function of the field values: layer, operation, wire count and keyword
  arguments of each call, in order. \<open>built_by ctor c b\<close>: the block \<open>b\<close> is what the
  call \<open>c\<close> returned, in some state of the store.
\<close>

type_synonym 'b call = "layer_ref \<times> 'b item \<times> int \<times> params"

definition rotation_calls :: "('b item list, params, 'b) attrs \<Rightarrow> 'b call list" where
  "rotation_calls cfg =
     map (\<lambda>g. (rotation_layer cfg, g, n_wires cfg, rotation_layer_params cfg)) (rotation_ops cfg)"

definition entanglement_calls :: "('b item list, params, 'b) attrs \<Rightarrow> 'b call list" where
  "entanglement_calls cfg =
     map (\<lambda>g. (entanglement_layer cfg, g, n_wires cfg, entanglement_layer_params cfg))
       (entanglement_ops cfg)"

definition block_calls :: "('b item list, params, 'b) attrs \<Rightarrow> 'b call list" where
  "block_calls cfg =
     concat (replicate (nat (reps cfg)) (rotation_calls cfg @ entanglement_calls cfg))
     @ (if skip_final_rotation_layer cfg then [] else rotation_calls cfg)"

definition built_by :: "('b, 'w) hctor \<Rightarrow> 'b call \<Rightarrow> 'b \<Rightarrow> bool" where
  "built_by ctor c b \<longleftrightarrow>
     (case c of (layer, g, n, kwargs) \<Rightarrow>
        \<exists>h d h'. d < length (dicts h) \<and> dicts h ! d = kwargs
                 \<and> call_layer_h ctor layer g n d h = (Inr b, h'))"

text \<open>
  The link between the two models. A constructor of the first part is a constructor on
  the store that reads its keyword arguments and writes nothing; a configuration of the
  first part gives the field values of a template whose lists hold its operations.
  \<open>returning r\<close> replaces the value a method returns, and keeps an exception.
\<close>

definition stateless :: "'b ctor \<Rightarrow> ('b, 'w) hctor" where
  "stateless ctor k g n kwargs h =
     (case g of
        Op gt \<Rightarrow> (ctor k gt n (dicts h ! kwargs), h)
      | Blk b \<Rightarrow> (Inl TypeError, h))"

definition as_items :: "'b NLocal \<Rightarrow> ('b item list, params, 'b) attrs" where
  "as_items cfg =
     \<lparr> rotation_ops = map Op (rotation_ops cfg),
       rotation_layer = rotation_layer cfg,
       rotation_layer_params = rotation_layer_params cfg,
       entanglement_ops = map Op (entanglement_ops cfg),
       entanglement_layer = entanglement_layer cfg,
       entanglement_layer_params = entanglement_layer_params cfg,
       initial_circuit = initial_circuit cfg,
       skip_final_rotation_layer = skip_final_rotation_layer cfg,
       reps = reps cfg,
       n_wires = n_wires cfg \<rparr>"

definition returning :: "'r \<Rightarrow> error + 'a \<Rightarrow> error + 'r" where
  "returning r outcome = (case outcome of Inl e \<Rightarrow> Inl e | Inr x \<Rightarrow> Inr r)"

text \<open>
  An example of a layer constructor on the store: it draws a seed from the world, writes
  it into the dictionary of keyword arguments it was handed, and returns the call with
  that dictionary as the block. And two stores: in \<open>store\<close> two templates share the two
  dictionaries at addresses 0 and 1, as two templates constructed with the default
  \<^verbatim>\<open>{}\<close> do; \<open>other_store\<close> holds a template with the same field values as the first
  of \<open>store\<close>, at other addresses and in another world.
\<close>

definition seeded :: "(block, nat) hctor" where
  "seeded k g n kwargs h =
     (case g of
        Op gt \<Rightarrow>
          (let kw = (dicts h ! kwargs)(''seed'' \<mapsto> PyInt (int (world h)))
           in (Inr (Built k gt n kw),
               h\<lparr>dicts := (dicts h)[kwargs := kw], world := Suc (world h)\<rparr>))
      | Blk b \<Rightarrow> (Inl TypeError, h))"

definition template :: "(ref, ref, block) attrs" where
  "template =
     \<lparr> rotation_ops = 0, rotation_layer = Layer Op1QAllLayer, rotation_layer_params = 0,
       entanglement_ops = 1, entanglement_layer = Layer Op2QAllLayer,
       entanglement_layer_params = 1, initial_circuit = None,
       skip_final_rotation_layer = False, reps = 1, n_wires = 2 \<rparr>"

definition store :: "(block, nat) heap" where
  "store =
     \<lparr> objects = [template, template\<lparr>reps := 2\<rparr>],
       dicts = [Map.empty, Map.empty],
       pylists = [[Op RY], [Op CNOT]],
       world = 7 \<rparr>"

definition other_store :: "(block, nat) heap" where
  "other_store =
     \<lparr> objects = [template\<lparr>reps := 5\<rparr>,
               template\<lparr>rotation_ops := 2, rotation_layer_params := 1,
                         entanglement_ops := 0, entanglement_layer_params := 2\<rparr>],
       dicts = [[''jump'' \<mapsto> PyInt 2], Map.empty, Map.empty],
       pylists = [[Op CNOT], [Op RXX, Op RYY], [Op RY]],
       world = 40 \<rparr>"

section \<open>Properties of the loops\<close>

text \<open>Starting a loop from a nonempty list prepends that list to what it builds.\<close>


lemma rotation_loop_acc:
  "rotation_loop ctor self acc ops = map_sum id ((@) acc) (rotation_loop ctor self [] ops)"
proof (induction ops arbitrary: acc)
  case Nil
  show ?case by simp
next
  case (Cons g gs)
  show ?case
  proof (cases "call_layer ctor (rotation_layer self) g (n_wires self) (rotation_layer_params self)")
    case (Inl e)
    then show ?thesis by simp
  next
    case (Inr b)
    show ?thesis
      using Cons.IH [of "acc @ [b]"] Cons.IH [of "[b]"] Inr
      by (cases "rotation_loop ctor self [] gs") simp_all
  qed
qed

lemma entanglement_loop_acc:
  "entanglement_loop ctor self acc ops = map_sum id ((@) acc) (entanglement_loop ctor self [] ops)"
proof (induction ops arbitrary: acc)
  case Nil
  show ?case by simp
next
  case (Cons g gs)
  show ?case
  proof (cases "call_layer ctor (entanglement_layer self) g (n_wires self) (entanglement_layer_params self)")
    case (Inl e)
    then show ?thesis by simp
  next
    case (Inr b)
    show ?thesis
      using Cons.IH [of "acc @ [b]"] Cons.IH [of "[b]"] Inr
      by (cases "entanglement_loop ctor self [] gs") simp_all
  qed
qed

text \<open>A loop that returns has made one successful call per operation, in list order.\<close>

lemma rotation_loop_Inr:
  "rotation_loop ctor self [] ops = Inr rs \<longleftrightarrow>
     list_all2 (\<lambda>g b. call_layer ctor (rotation_layer self) g (n_wires self)
                        (rotation_layer_params self) = Inr b) ops rs"
proof (induction ops arbitrary: rs)
  case Nil
  show ?case by auto
next
  case (Cons g gs)
  show ?case
  proof (cases "call_layer ctor (rotation_layer self) g (n_wires self) (rotation_layer_params self)")
    case (Inl e)
    then show ?thesis by (simp add: list_all2_Cons1)
  next
    case (Inr b)
    have "rotation_loop ctor self [] (g # gs) = map_sum id ((@) [b]) (rotation_loop ctor self [] gs)"
      using Inr rotation_loop_acc [of ctor self "[b]" gs] by simp
    then show ?thesis
      using Inr Cons.IH
      by (cases "rotation_loop ctor self [] gs") (auto simp: list_all2_Cons1)
  qed
qed

lemma entanglement_loop_Inr:
  "entanglement_loop ctor self [] ops = Inr es \<longleftrightarrow>
     list_all2 (\<lambda>g b. call_layer ctor (entanglement_layer self) g (n_wires self)
                        (entanglement_layer_params self) = Inr b) ops es"
proof (induction ops arbitrary: es)
  case Nil
  show ?case by auto
next
  case (Cons g gs)
  show ?case
  proof (cases "call_layer ctor (entanglement_layer self) g (n_wires self) (entanglement_layer_params self)")
    case (Inl e)
    then show ?thesis by (simp add: list_all2_Cons1)
  next
    case (Inr b)
    have "entanglement_loop ctor self [] (g # gs) = map_sum id ((@) [b]) (entanglement_loop ctor self [] gs)"
      using Inr entanglement_loop_acc [of ctor self "[b]" gs] by simp
    then show ?thesis
      using Inr Cons.IH
      by (cases "entanglement_loop ctor self [] gs") (auto simp: list_all2_Cons1)
  qed
qed

lemma rotation_loop_Inl:
  "rotation_loop ctor self acc ops = Inl e \<Longrightarrow>
     \<exists>g \<in> set ops. call_layer ctor (rotation_layer self) g (n_wires self)
                     (rotation_layer_params self) = Inl e"
  by (induction ops arbitrary: acc) (auto split: sum.splits)

lemma entanglement_loop_Inl:
  "entanglement_loop ctor self acc ops = Inl e \<Longrightarrow>
     \<exists>g \<in> set ops. call_layer ctor (entanglement_layer self) g (n_wires self)
                     (entanglement_layer_params self) = Inl e"
  by (induction ops arbitrary: acc) (auto split: sum.splits)

lemma build_rotation_block_self: "snd (build_rotation_block ctor self) = self"
  by (simp add: build_rotation_block_def)

lemma build_entanglement_block_self: "snd (build_entanglement_block ctor self) = self"
  by (simp add: build_entanglement_block_def)

lemma reps_loop_self: "snd (reps_loop ctor k acc self) = self"
  by (induction k arbitrary: acc)
     (auto simp: build_rotation_block_def build_entanglement_block_def split: sum.splits)

lemma reps_loop_closed:
  "fst (reps_loop ctor k acc self) =
     (if k = 0 then Inr acc
      else case rotation_loop ctor self [] (rotation_ops self) of
             Inl e \<Rightarrow> Inl e
           | Inr rs \<Rightarrow>
               (case entanglement_loop ctor self [] (entanglement_ops self) of
                  Inl e \<Rightarrow> Inl e
                | Inr es \<Rightarrow> Inr (acc @ concat (replicate k (rs @ es)))))"
  by (induction k arbitrary: acc)
     (auto simp: build_rotation_block_def build_entanglement_block_def split: sum.splits)


lemma rotation_loop_cong:
  "rotation_layer a = rotation_layer b \<Longrightarrow> rotation_layer_params a = rotation_layer_params b \<Longrightarrow>
   n_wires a = n_wires b \<Longrightarrow> rotation_loop ctor a acc ops = rotation_loop ctor b acc ops"
  by (induction ops arbitrary: acc) (simp_all split: sum.splits)

lemma entanglement_loop_cong:
  "entanglement_layer a = entanglement_layer b \<Longrightarrow>
   entanglement_layer_params a = entanglement_layer_params b \<Longrightarrow>
   n_wires a = n_wires b \<Longrightarrow> entanglement_loop ctor a acc ops = entanglement_loop ctor b acc ops"
  by (induction ops arbitrary: acc) (simp_all split: sum.splits)

lemma build_layers_self: "snd (build_layers ctor self) = self"
proof -
  obtain r where r: "reps_loop ctor (nat (reps self))
      (case initial_circuit self of None \<Rightarrow> [] | Some c \<Rightarrow> [c]) self = (r, self)"
    using reps_loop_self [of ctor "nat (reps self)" _ self] by (metis prod.collapse)
  show ?thesis
    by (simp add: build_layers_def r build_rotation_block_def split: sum.splits)
qed

lemma build_layers_fst:
  "fst (build_layers ctor self) =
     (case fst (reps_loop ctor (nat (reps self))
                 (case initial_circuit self of None \<Rightarrow> [] | Some c \<Rightarrow> [c]) self) of
        Inl e \<Rightarrow> Inl e
      | Inr layers_all \<Rightarrow>
          if skip_final_rotation_layer self then Inr layers_all
          else (case rotation_loop ctor self [] (rotation_ops self) of
                  Inl e \<Rightarrow> Inl e
                | Inr rs \<Rightarrow> Inr (layers_all @ rs)))"
proof -
  obtain r where r: "reps_loop ctor (nat (reps self))
      (case initial_circuit self of None \<Rightarrow> [] | Some c \<Rightarrow> [c]) self = (r, self)"
    using reps_loop_self [of ctor "nat (reps self)" _ self] by (metis prod.collapse)
  show ?thesis
    by (simp add: build_layers_def r build_rotation_block_def split: sum.splits)
qed

lemma length_concat_replicate: "length (concat (replicate k xs)) = k * length xs"
  by (induction k) simp_all

section \<open>The length of the block sequence\<close>

text \<open>
  Against claim C1 as stated (with \<open>reps = 0\<close>, the final rotation layer not skipped
  and nonempty \<^verbatim>\<open>rotation_ops\<close> the sequence has exactly |rotation_ops| blocks): an
  object constructed without initial circuit, given one by assigning the attribute, and
  built with \<open>reps = 0\<close> has two blocks for one rotation operation.
\<close>

theorem reps_zero_initial_circuit_counterexample:
  "NLocal_init [RY] [CNOT] 2 None None (Some 0) None None None None
     = Inr \<lparr> rotation_ops = [RY], rotation_layer = Layer Op1QAllLayer,
             rotation_layer_params = Map.empty, entanglement_ops = [CNOT],
             entanglement_layer = Layer Op2QAllLayer, entanglement_layer_params = Map.empty,
             initial_circuit = (None :: block option), skip_final_rotation_layer = False,
             reps = 0, n_wires = 2 \<rparr>
   \<and> fst (build_layers construct
        (\<lparr> rotation_ops = [RY], rotation_layer = Layer Op1QAllLayer,
           rotation_layer_params = Map.empty, entanglement_ops = [CNOT],
           entanglement_layer = Layer Op2QAllLayer, entanglement_layer_params = Map.empty,
           initial_circuit = None, skip_final_rotation_layer = False, reps = 0,
           n_wires = 2 \<rparr> \<lparr> initial_circuit := Some (Circuit ''prep'') \<rparr>))
     = Inr [Circuit ''prep'', Built Op1QAllLayer RY 2 Map.empty]
   \<and> length [Circuit ''prep'', Built Op1QAllLayer RY 2 Map.empty] \<noteq> length [RY]"
  by (simp add: NLocal_init_def build_layers_def build_rotation_block_def call_layer_def
        construct_def)

text \<open>
  Claim C1, as the code has it. When \<^verbatim>\<open>build_layers\<close> returns for a configuration with
  \<open>reps \<ge> 0\<close>, the sequence has length (1 if \<^verbatim>\<open>initial_circuit\<close> is present, else 0)
  + reps * (|rotation_ops| + |entanglement_ops|)
  + (0 if \<^verbatim>\<open>skip_final_rotation_layer\<close>, else |rotation_ops|). In particular, with
  \<open>reps = 0\<close> and the final rotation layer not skipped, the sequence is the initial
  circuit, if one is present, followed by exactly the |rotation_ops| blocks of one
  rotation block and by no entanglement block: exactly |rotation_ops| blocks when no
  initial circuit is present, as in every object the constructor returns.
\<close>

theorem build_layers_length:
  assumes ok: "fst (build_layers ctor self) = Inr bs" and reps: "0 \<le> reps self"
  shows "int (length bs) =
           (if initial_circuit self = None then 0 else 1)
           + reps self * (int (length (rotation_ops self)) + int (length (entanglement_ops self)))
           + (if skip_final_rotation_layer self then 0 else int (length (rotation_ops self)))
         \<and> (reps self = 0 \<and> \<not> skip_final_rotation_layer self \<longrightarrow>
              (\<exists>rs. fst (build_rotation_block ctor self) = Inr rs
                 \<and> length rs = length (rotation_ops self)
                 \<and> bs = (case initial_circuit self of None \<Rightarrow> [] | Some c \<Rightarrow> [c]) @ rs))"
proof -
  have rot: "length rs = length (rotation_ops self)"
    if "rotation_loop ctor self [] (rotation_ops self) = Inr rs" for rs
    using that by (simp add: rotation_loop_Inr list_all2_lengthD)
  have ent: "length es = length (entanglement_ops self)"
    if "entanglement_loop ctor self [] (entanglement_ops self) = Inr es" for es
    using that by (simp add: entanglement_loop_Inr list_all2_lengthD)
  have n: "int (nat (reps self)) = reps self"
    using reps by simp
  have len: "int (length bs) =
           (if initial_circuit self = None then 0 else 1)
           + int (nat (reps self)) * (int (length (rotation_ops self)) + int (length (entanglement_ops self)))
           + (if skip_final_rotation_layer self then 0 else int (length (rotation_ops self)))"
    using ok
    by (auto simp: build_layers_fst reps_loop_closed length_concat_replicate rot ent
          distrib_left
        split: sum.splits if_splits option.splits)
  have zero: "\<exists>rs. fst (build_rotation_block ctor self) = Inr rs
                 \<and> length rs = length (rotation_ops self)
                 \<and> bs = (case initial_circuit self of None \<Rightarrow> [] | Some c \<Rightarrow> [c]) @ rs"
    if "reps self = 0" "\<not> skip_final_rotation_layer self"
    using ok that
    by (auto simp: build_layers_fst build_rotation_block_def rot split: sum.splits)
  show ?thesis
    using len zero n by simp
qed

theorem build_layers_length_witness:
  "NLocal_init [RY] [CNOT] 2 None None (Some 0) None None None None
     = Inr \<lparr> rotation_ops = [RY], rotation_layer = Layer Op1QAllLayer,
             rotation_layer_params = Map.empty, entanglement_ops = [CNOT],
             entanglement_layer = Layer Op2QAllLayer, entanglement_layer_params = Map.empty,
             initial_circuit = (None :: block option), skip_final_rotation_layer = False,
             reps = 0, n_wires = 2 \<rparr>
   \<and> fst (build_layers construct
        (\<lparr> rotation_ops = [RY], rotation_layer = Layer Op1QAllLayer,
           rotation_layer_params = Map.empty, entanglement_ops = [CNOT],
           entanglement_layer = Layer Op2QAllLayer, entanglement_layer_params = Map.empty,
           initial_circuit = None, skip_final_rotation_layer = False, reps = 0,
           n_wires = 2 \<rparr> \<lparr> initial_circuit := Some (Circuit ''prep'') \<rparr>))
     = Inr [Circuit ''prep'', Built Op1QAllLayer RY 2 Map.empty]
   \<and> int (length [Circuit ''prep'', Built Op1QAllLayer RY 2 Map.empty]) = 1 + 0 * (1 + 1) + 1
   \<and> fst (build_rotation_block construct
        (\<lparr> rotation_ops = [RY], rotation_layer = Layer Op1QAllLayer,
           rotation_layer_params = Map.empty, entanglement_ops = [CNOT],
           entanglement_layer = Layer Op2QAllLayer, entanglement_layer_params = Map.empty,
           initial_circuit = None, skip_final_rotation_layer = False, reps = 0,
           n_wires = 2 \<rparr> \<lparr> initial_circuit := Some (Circuit ''prep'') \<rparr>))
     = Inr [Built Op1QAllLayer RY 2 Map.empty]
   \<and> [Circuit ''prep'', Built Op1QAllLayer RY 2 Map.empty]
     = [Circuit ''prep''] @ [Built Op1QAllLayer RY 2 Map.empty]"
proof -
  let ?cfg = "\<lparr> rotation_ops = [RY], rotation_layer = Layer Op1QAllLayer,
          rotation_layer_params = Map.empty, entanglement_ops = [CNOT],
          entanglement_layer = Layer Op2QAllLayer, entanglement_layer_params = Map.empty,
          initial_circuit = Some (Circuit ''prep''), skip_final_rotation_layer = False, reps = 0,
          n_wires = 2 \<rparr>"
  let ?bs = "[Circuit ''prep'', Built Op1QAllLayer RY 2 Map.empty]"
  have h: "fst (build_layers construct ?cfg) = Inr ?bs"
    by (simp add: build_layers_def build_rotation_block_def call_layer_def construct_def)
  have r: "0 \<le> reps ?cfg"
    by simp
  from build_layers_length [OF h r] show ?thesis
    using h by (auto simp: NLocal_init_def)
qed

section \<open>The initial circuit\<close>

text \<open>
  Claim C4. When \<^verbatim>\<open>initial_circuit\<close> is present and \<^verbatim>\<open>build_layers\<close> returns, the block
  at index 0 is that circuit, whatever \<open>reps\<close> and \<^verbatim>\<open>skip_final_rotation_layer\<close> are.
  An absent \<^verbatim>\<open>initial_circuit\<close> contributes nothing and raises nothing: the outcome with
  the circuit present is the outcome with it absent, with the circuit put in front of the
  sequence when there is one, and the same exception otherwise.
\<close>

theorem initial_circuit_first:
  "(initial_circuit self = Some c \<and> fst (build_layers ctor self) = Inr bs \<longrightarrow> bs \<noteq> [] \<and> bs ! 0 = c)
   \<and> fst (build_layers ctor (self\<lparr>initial_circuit := Some c\<rparr>))
       = map_sum id ((#) c) (fst (build_layers ctor (self\<lparr>initial_circuit := None\<rparr>)))"
proof -
  have rot: "rotation_loop ctor (self\<lparr>initial_circuit := x\<rparr>) acc ops = rotation_loop ctor self acc ops"
    for x acc ops
    by (rule rotation_loop_cong) simp_all
  have ent: "entanglement_loop ctor (self\<lparr>initial_circuit := x\<rparr>) acc ops
      = entanglement_loop ctor self acc ops" for x acc ops
    by (rule entanglement_loop_cong) simp_all
  have first: "bs \<noteq> [] \<and> bs ! 0 = c"
    if "initial_circuit self = Some c" "fst (build_layers ctor self) = Inr bs"
    using that
    by (auto simp: build_layers_fst reps_loop_closed split: sum.splits if_splits)
  have shift: "fst (build_layers ctor (self\<lparr>initial_circuit := Some c\<rparr>))
       = map_sum id ((#) c) (fst (build_layers ctor (self\<lparr>initial_circuit := None\<rparr>)))"
    by (simp add: build_layers_fst reps_loop_closed rot ent split: sum.splits)
  show ?thesis
    using first shift by blast
qed

text \<open>
  The constructor refuses an initial circuit; the object of the witness is constructed
  without one and has the attribute assigned afterwards.
\<close>

theorem initial_circuit_first_witness:
  "NLocal_init [RY] [CNOT] 2 None None (Some 1) None None (Some (Circuit ''prep'')) (Some True)
     = Inl AttributeError
   \<and> NLocal_init [RY] [CNOT] 2 None None (Some 1) None None None (Some True)
     = Inr \<lparr> rotation_ops = [RY], rotation_layer = Layer Op1QAllLayer,
             rotation_layer_params = Map.empty, entanglement_ops = [CNOT],
             entanglement_layer = Layer Op2QAllLayer, entanglement_layer_params = Map.empty,
             initial_circuit = (None :: block option), skip_final_rotation_layer = True,
             reps = 1, n_wires = 2 \<rparr>
   \<and> initial_circuit
        (\<lparr> rotation_ops = [RY], rotation_layer = Layer Op1QAllLayer,
           rotation_layer_params = Map.empty, entanglement_ops = [CNOT],
           entanglement_layer = Layer Op2QAllLayer, entanglement_layer_params = Map.empty,
           initial_circuit = None, skip_final_rotation_layer = True, reps = 1,
           n_wires = 2 \<rparr> \<lparr> initial_circuit := Some (Circuit ''prep'') \<rparr>)
     = Some (Circuit ''prep'')
   \<and> fst (build_layers construct
        (\<lparr> rotation_ops = [RY], rotation_layer = Layer Op1QAllLayer,
           rotation_layer_params = Map.empty, entanglement_ops = [CNOT],
           entanglement_layer = Layer Op2QAllLayer, entanglement_layer_params = Map.empty,
           initial_circuit = None, skip_final_rotation_layer = True, reps = 1,
           n_wires = 2 \<rparr> \<lparr> initial_circuit := Some (Circuit ''prep'') \<rparr>))
     = Inr [Circuit ''prep'', Built Op1QAllLayer RY 2 Map.empty, Built Op2QAllLayer CNOT 2 Map.empty]
   \<and> [Circuit ''prep'', Built Op1QAllLayer RY 2 Map.empty, Built Op2QAllLayer CNOT 2 Map.empty] ! 0
     = Circuit ''prep''"
proof -
  let ?cfg = "\<lparr> rotation_ops = [RY], rotation_layer = Layer Op1QAllLayer,
           rotation_layer_params = Map.empty, entanglement_ops = [CNOT],
           entanglement_layer = Layer Op2QAllLayer, entanglement_layer_params = Map.empty,
           initial_circuit = None, skip_final_rotation_layer = True, reps = 1,
           n_wires = 2 \<rparr> \<lparr> initial_circuit := Some (Circuit ''prep'') \<rparr>"
  let ?bs = "[Circuit ''prep'', Built Op1QAllLayer RY 2 Map.empty, Built Op2QAllLayer CNOT 2 Map.empty]"
  have n: "NLocal_init [RY] [CNOT] 2 None None (Some 1) None None (Some (Circuit ''prep'')) (Some True)
     = (Inl AttributeError :: error + block NLocal)"
    "NLocal_init [RY] [CNOT] 2 None None (Some 1) None None None (Some True)
     = Inr (\<lparr> rotation_ops = [RY], rotation_layer = Layer Op1QAllLayer,
             rotation_layer_params = Map.empty, entanglement_ops = [CNOT],
             entanglement_layer = Layer Op2QAllLayer, entanglement_layer_params = Map.empty,
             initial_circuit = None, skip_final_rotation_layer = True, reps = 1,
             n_wires = 2 \<rparr> :: block NLocal)"
    by (simp_all add: NLocal_init_def)
  have i: "initial_circuit ?cfg = Some (Circuit ''prep'')"
    by simp
  have h: "fst (build_layers construct ?cfg) = Inr ?bs"
    by (simp add: build_layers_def build_rotation_block_def
          build_entanglement_block_def call_layer_def construct_def)
  from initial_circuit_first [of ?cfg "Circuit ''prep''" construct ?bs] i h
  have "?bs ! 0 = Circuit ''prep''"
    by blast
  with n i h show ?thesis
    by simp
qed

section \<open>Negative repetition counts\<close>

text \<open>
  Claim C9. With \<open>reps < 0\<close> the repetition loop runs zero times: \<^verbatim>\<open>build_layers\<close> has
  the outcome it has for the same configuration with \<open>reps = 0\<close>, and raises nothing that
  it does not raise there.
\<close>

theorem negative_reps_as_zero:
  assumes "reps self < 0"
  shows "fst (build_layers ctor self) = fst (build_layers ctor (self\<lparr>reps := 0\<rparr>))"
proof -
  have rot: "rotation_loop ctor (self\<lparr>reps := 0\<rparr>) acc ops = rotation_loop ctor self acc ops"
    for acc ops
    by (rule rotation_loop_cong) simp_all
  have "nat (reps self) = 0"
    using assms by simp
  then show ?thesis
    by (simp add: build_layers_fst rot)
qed

theorem negative_reps_as_zero_witness:
  "RealAmplitudes 2 None (Some (- 2)) None
     = Inr \<lparr> rotation_ops = [RY], rotation_layer = Layer Op1QAllLayer,
             rotation_layer_params = [''has_params'' \<mapsto> PyBool True, ''trainable'' \<mapsto> PyBool True],
             entanglement_ops = [CNOT], entanglement_layer = Layer Op2QAllLayer,
             entanglement_layer_params = [''wire_reverse'' \<mapsto> PyBool True],
             initial_circuit = (None :: block option), skip_final_rotation_layer = False,
             reps = - 2, n_wires = 2 \<rparr>
   \<and> reps \<lparr> rotation_ops = [RY], rotation_layer = Layer Op1QAllLayer,
             rotation_layer_params = [''has_params'' \<mapsto> PyBool True, ''trainable'' \<mapsto> PyBool True],
             entanglement_ops = [CNOT], entanglement_layer = Layer Op2QAllLayer,
             entanglement_layer_params = [''wire_reverse'' \<mapsto> PyBool True],
             initial_circuit = (None :: block option), skip_final_rotation_layer = False,
             reps = - 2, n_wires = 2 \<rparr> < 0
   \<and> fst (build_layers construct
         \<lparr> rotation_ops = [RY], rotation_layer = Layer Op1QAllLayer,
           rotation_layer_params = [''has_params'' \<mapsto> PyBool True, ''trainable'' \<mapsto> PyBool True],
           entanglement_ops = [CNOT], entanglement_layer = Layer Op2QAllLayer,
           entanglement_layer_params = [''wire_reverse'' \<mapsto> PyBool True],
           initial_circuit = None, skip_final_rotation_layer = False, reps = - 2,
           n_wires = 2 \<rparr>)
     = fst (build_layers construct
         (\<lparr> rotation_ops = [RY], rotation_layer = Layer Op1QAllLayer,
            rotation_layer_params = [''has_params'' \<mapsto> PyBool True, ''trainable'' \<mapsto> PyBool True],
            entanglement_ops = [CNOT], entanglement_layer = Layer Op2QAllLayer,
            entanglement_layer_params = [''wire_reverse'' \<mapsto> PyBool True],
            initial_circuit = None, skip_final_rotation_layer = False, reps = - 2,
            n_wires = 2 \<rparr> \<lparr> reps := 0 \<rparr>))
   \<and> fst (build_layers construct
         (\<lparr> rotation_ops = [RY], rotation_layer = Layer Op1QAllLayer,
            rotation_layer_params = [''has_params'' \<mapsto> PyBool True, ''trainable'' \<mapsto> PyBool True],
            entanglement_ops = [CNOT], entanglement_layer = Layer Op2QAllLayer,
            entanglement_layer_params = [''wire_reverse'' \<mapsto> PyBool True],
            initial_circuit = None, skip_final_rotation_layer = False, reps = - 2,
            n_wires = 2 \<rparr> \<lparr> reps := 0 \<rparr>))
     = Inr [Built Op1QAllLayer RY 2 [''has_params'' \<mapsto> PyBool True, ''trainable'' \<mapsto> PyBool True]]"
proof -
  let ?cfg = "\<lparr> rotation_ops = [RY], rotation_layer = Layer Op1QAllLayer,
             rotation_layer_params = [''has_params'' \<mapsto> PyBool True, ''trainable'' \<mapsto> PyBool True],
             entanglement_ops = [CNOT], entanglement_layer = Layer Op2QAllLayer,
             entanglement_layer_params = [''wire_reverse'' \<mapsto> PyBool True],
             initial_circuit = None, skip_final_rotation_layer = False, reps = - 2,
             n_wires = 2 \<rparr> :: block NLocal"
  have c: "RealAmplitudes 2 None (Some (- 2)) None = Inr ?cfg"
    by (simp add: RealAmplitudes_def TwoLocal_init_def NLocal_init_def entanglement_type_def)
  have r: "reps ?cfg < 0"
    by simp
  have z: "fst (build_layers construct (?cfg\<lparr>reps := 0\<rparr>))
     = Inr [Built Op1QAllLayer RY 2 [''has_params'' \<mapsto> PyBool True, ''trainable'' \<mapsto> PyBool True]]"
    by (simp add: build_layers_def build_rotation_block_def call_layer_def construct_def)
  from negative_reps_as_zero [OF r, of construct] c r z show ?thesis
    by blast
qed

section \<open>The wire count\<close>

text \<open>
  Against claim C6 as stated (a wire count below 1 fails with \<^verbatim>\<open>InvalidWireCount\<close>):
  \<^verbatim>\<open>build_layers\<close> has no check of the wire count. With \<open>n_wires = 0\<close>, no repetition
  and no final rotation layer it calls no constructor and returns the empty sequence;
  otherwise it makes the same constructor calls as ever, handing them the \<open>0\<close>, and
  returns their blocks.
\<close>

theorem nonpositive_wire_count_counterexample:
  "RealAmplitudes 0 None (Some 0) (Some True)
     = Inr \<lparr> rotation_ops = [RY], rotation_layer = Layer Op1QAllLayer,
             rotation_layer_params = [''has_params'' \<mapsto> PyBool True, ''trainable'' \<mapsto> PyBool True],
             entanglement_ops = [CNOT], entanglement_layer = Layer Op2QAllLayer,
             entanglement_layer_params = [''wire_reverse'' \<mapsto> PyBool True],
             initial_circuit = (None :: block option), skip_final_rotation_layer = True,
             reps = 0, n_wires = 0 \<rparr>
   \<and> fst (build_layers construct
         \<lparr> rotation_ops = [RY], rotation_layer = Layer Op1QAllLayer,
           rotation_layer_params = [''has_params'' \<mapsto> PyBool True, ''trainable'' \<mapsto> PyBool True],
           entanglement_ops = [CNOT], entanglement_layer = Layer Op2QAllLayer,
           entanglement_layer_params = [''wire_reverse'' \<mapsto> PyBool True],
           initial_circuit = None, skip_final_rotation_layer = True,
           reps = 0, n_wires = 0 \<rparr>) = Inr []
   \<and> RealAmplitudes 0 None (Some 1) None
     = Inr \<lparr> rotation_ops = [RY], rotation_layer = Layer Op1QAllLayer,
             rotation_layer_params = [''has_params'' \<mapsto> PyBool True, ''trainable'' \<mapsto> PyBool True],
             entanglement_ops = [CNOT], entanglement_layer = Layer Op2QAllLayer,
             entanglement_layer_params = [''wire_reverse'' \<mapsto> PyBool True],
             initial_circuit = (None :: block option), skip_final_rotation_layer = False,
             reps = 1, n_wires = 0 \<rparr>
   \<and> fst (build_layers construct
         \<lparr> rotation_ops = [RY], rotation_layer = Layer Op1QAllLayer,
           rotation_layer_params = [''has_params'' \<mapsto> PyBool True, ''trainable'' \<mapsto> PyBool True],
           entanglement_ops = [CNOT], entanglement_layer = Layer Op2QAllLayer,
           entanglement_layer_params = [''wire_reverse'' \<mapsto> PyBool True],
           initial_circuit = None, skip_final_rotation_layer = False,
           reps = 1, n_wires = 0 \<rparr>)
       = Inr [Built Op1QAllLayer RY 0 [''has_params'' \<mapsto> PyBool True, ''trainable'' \<mapsto> PyBool True],
              Built Op2QAllLayer CNOT 0 [''wire_reverse'' \<mapsto> PyBool True],
              Built Op1QAllLayer RY 0 [''has_params'' \<mapsto> PyBool True, ''trainable'' \<mapsto> PyBool True]]"
  by (simp add: entanglement_type_def TwoLocal_init_def NLocal_init_def RealAmplitudes_def
        build_layers_def build_rotation_block_def build_entanglement_block_def call_layer_def
        construct_def)

text \<open>
  Claim C6, as the code has it. \<^verbatim>\<open>build_layers\<close> hands the wire count, whatever it is,
  to the layer constructors and raises no error of its own about it: when a build fails,
  the exception is the one raised by a call of the rotation layer on a rotation operation
  or of the entanglement layer on an entanglement operation, made with that wire count,
  and no partial sequence is returned. So a build fails for no wire count, below 1 or
  not, on which these calls succeed.
\<close>

theorem build_layers_error_from_call:
  assumes "fst (build_layers ctor self) = Inl e"
  shows "(\<exists>g \<in> set (rotation_ops self).
            call_layer ctor (rotation_layer self) g (n_wires self) (rotation_layer_params self) = Inl e)
         \<or> (\<exists>g \<in> set (entanglement_ops self).
            call_layer ctor (entanglement_layer self) g (n_wires self)
              (entanglement_layer_params self) = Inl e)"
proof -
  from assms consider
      "rotation_loop ctor self [] (rotation_ops self) = Inl e"
    | "entanglement_loop ctor self [] (entanglement_ops self) = Inl e"
    by (auto simp: build_layers_fst reps_loop_closed split: sum.splits if_splits)
  then show ?thesis
  proof cases
    case 1
    then show ?thesis by (blast dest: rotation_loop_Inl)
  next
    case 2
    then show ?thesis by (blast dest: entanglement_loop_Inl)
  qed
qed

theorem build_layers_error_from_call_witness:
  "TwoLocal_init [RY] [CNOT] 2 None (Some (Name ''star'')) None None None None
     = Inr \<lparr> rotation_ops = [RY], rotation_layer = Layer Op1QAllLayer,
             rotation_layer_params = [''has_params'' \<mapsto> PyBool True, ''trainable'' \<mapsto> PyBool True],
             entanglement_ops = [CNOT], entanglement_layer = Name ''star'',
             entanglement_layer_params = Map.empty,
             initial_circuit = (None :: block option), skip_final_rotation_layer = False,
             reps = 1, n_wires = 2 \<rparr>
   \<and> fst (build_layers construct
         \<lparr> rotation_ops = [RY], rotation_layer = Layer Op1QAllLayer,
           rotation_layer_params = [''has_params'' \<mapsto> PyBool True, ''trainable'' \<mapsto> PyBool True],
           entanglement_ops = [CNOT], entanglement_layer = Name ''star'',
           entanglement_layer_params = Map.empty,
           initial_circuit = None, skip_final_rotation_layer = False,
           reps = 1, n_wires = 2 \<rparr>)
     = Inl TypeError
   \<and> call_layer construct (Name ''star'') CNOT 2 Map.empty = Inl TypeError"
proof -
  let ?cfg = "\<lparr> rotation_ops = [RY], rotation_layer = Layer Op1QAllLayer,
           rotation_layer_params = [''has_params'' \<mapsto> PyBool True, ''trainable'' \<mapsto> PyBool True],
           entanglement_ops = [CNOT], entanglement_layer = Name ''star'',
           entanglement_layer_params = Map.empty,
           initial_circuit = None, skip_final_rotation_layer = False,
           reps = 1, n_wires = 2 \<rparr> :: block NLocal"
  have h: "fst (build_layers construct ?cfg) = Inl TypeError"
    by (simp add: build_layers_def build_rotation_block_def build_entanglement_block_def
          call_layer_def construct_def)
  from build_layers_error_from_call [OF h] show ?thesis
    using h
    by (simp add: entanglement_type_def TwoLocal_init_def NLocal_init_def call_layer_def
          construct_def)
qed

section \<open>The entanglement argument of \<^verbatim>\<open>TwoLocal\<close>\<close>

text \<open>
  Against claim C2 as stated (an unrecognised name raises \<^verbatim>\<open>UnknownTopology\<close>): a
  string that is none of the four names raises nothing in \<^verbatim>\<open>TwoLocal.__init__\<close>: the
  chain has no \<^verbatim>\<open>else\<close>, the string stays the entanglement layer, and with \<open>reps = 0\<close>
  the whole build returns without ever calling it.
\<close>

theorem unknown_topology_counterexample:
  "entanglement_type (Name ''star'') Map.empty = (Name ''star'', Map.empty)
   \<and> TwoLocal_init [RY] [CNOT] 2 None (Some (Name ''star'')) (Some 0) None None None
     = Inr \<lparr> rotation_ops = [RY], rotation_layer = Layer Op1QAllLayer,
             rotation_layer_params = [''has_params'' \<mapsto> PyBool True, ''trainable'' \<mapsto> PyBool True],
             entanglement_ops = [CNOT], entanglement_layer = Name ''star'',
             entanglement_layer_params = Map.empty,
             initial_circuit = (None :: block option), skip_final_rotation_layer = False,
             reps = 0, n_wires = 2 \<rparr>
   \<and> fst (build_layers construct
         \<lparr> rotation_ops = [RY], rotation_layer = Layer Op1QAllLayer,
           rotation_layer_params = [''has_params'' \<mapsto> PyBool True, ''trainable'' \<mapsto> PyBool True],
           entanglement_ops = [CNOT], entanglement_layer = Name ''star'',
           entanglement_layer_params = Map.empty,
           initial_circuit = None, skip_final_rotation_layer = False,
           reps = 0, n_wires = 2 \<rparr>)
       = Inr [Built Op1QAllLayer RY 2 [''has_params'' \<mapsto> PyBool True, ''trainable'' \<mapsto> PyBool True]]"
  by (simp add: entanglement_type_def TwoLocal_init_def NLocal_init_def build_layers_def
        build_rotation_block_def call_layer_def construct_def)

text \<open>
  Claim C2, as the code has it. For a name that is none of \<^verbatim>\<open>"linear"\<close>,
  \<^verbatim>\<open>"reverse_linear"\<close>, \<^verbatim>\<open>"circular"\<close>, \<^verbatim>\<open>"full"\<close> the dispatch raises no error and
  substitutes no default layer kind: the string itself stays the entanglement layer and
  the caller's parameters stay as they are. For the four names it returns the layer kind
  of the table and sets the table's override keys: \<^verbatim>\<open>wire_reverse\<close> for
  \<^verbatim>\<open>"reverse_linear"\<close>, \<^verbatim>\<open>circular\<close> for \<^verbatim>\<open>"circular"\<close>, none for \<^verbatim>\<open>"linear"\<close> and
  \<^verbatim>\<open>"full"\<close>, whose parameters are the caller's. What becomes of the caller's other
  keys under \<^verbatim>\<open>"reverse_linear"\<close> and \<^verbatim>\<open>"circular"\<close> is the subject of claim C3 and
  is not stated here.
\<close>

theorem entanglement_type_table:
  "(s \<notin> {''linear'', ''reverse_linear'', ''circular'', ''full''} \<longrightarrow>
      entanglement_type (Name s) ps = (Name s, ps))
   \<and> entanglement_type (Name ''linear'') ps = (Layer Op2QAllLayer, ps)
   \<and> fst (entanglement_type (Name ''reverse_linear'') ps) = Layer Op2QAllLayer
   \<and> snd (entanglement_type (Name ''reverse_linear'') ps) ''wire_reverse'' = Some (PyBool True)
   \<and> fst (entanglement_type (Name ''circular'') ps) = Layer Op2QAllLayer
   \<and> snd (entanglement_type (Name ''circular'') ps) ''circular'' = Some (PyBool True)
   \<and> entanglement_type (Name ''full'') ps = (Layer Op2QDenseLayer, ps)"
  by (simp add: entanglement_type_def)

theorem entanglement_type_table_witness:
  "''star'' \<notin> {''linear'', ''reverse_linear'', ''circular'', ''full''}
   \<and> entanglement_type (Name ''star'') [''jump'' \<mapsto> PyInt 2] = (Name ''star'', [''jump'' \<mapsto> PyInt 2])"
  using entanglement_type_table [of "''star''" "[''jump'' \<mapsto> PyInt 2]"] by simp

text \<open>
  Claim C3 says that for \<^verbatim>\<open>"reverse_linear"\<close> and \<^verbatim>\<open>"circular"\<close> the caller's
  \<^verbatim>\<open>entanglement_layer_params\<close> are merged with the override. The code rebinds the
  argument to the override alone: with \<^verbatim>\<open>"circular"\<close> the caller's \<^verbatim>\<open>has_params\<close> and
  \<^verbatim>\<open>trainable\<close> are gone, and the \<^verbatim>\<open>RXX\<close> and \<^verbatim>\<open>RYY\<close> layers of
  \<^verbatim>\<open>ExcitationPreserving\<close> are constructed without them.
\<close>

theorem circular_drops_supplied_params:
  "TwoLocal_init [RY] [RXX] 2 None (Some (Name ''circular'')) None
         (Some [''has_params'' \<mapsto> PyBool True, ''trainable'' \<mapsto> PyBool True]) None None
     = Inr \<lparr> rotation_ops = [RY], rotation_layer = Layer Op1QAllLayer,
             rotation_layer_params = [''has_params'' \<mapsto> PyBool True, ''trainable'' \<mapsto> PyBool True],
             entanglement_ops = [RXX], entanglement_layer = Layer Op2QAllLayer,
             entanglement_layer_params = [''circular'' \<mapsto> PyBool True],
             initial_circuit = (None :: block option), skip_final_rotation_layer = False,
             reps = 1, n_wires = 2 \<rparr>
   \<and> [''circular'' \<mapsto> PyBool True] ''has_params'' = None
   \<and> ExcitationPreserving 2 (Some (Name ''circular'')) (Some 1) (Some True)
     = Inr \<lparr> rotation_ops = [RZ], rotation_layer = Layer Op1QAllLayer,
             rotation_layer_params = [''has_params'' \<mapsto> PyBool True, ''trainable'' \<mapsto> PyBool True],
             entanglement_ops = [RXX, RYY], entanglement_layer = Layer Op2QAllLayer,
             entanglement_layer_params = [''circular'' \<mapsto> PyBool True],
             initial_circuit = (None :: block option), skip_final_rotation_layer = True,
             reps = 1, n_wires = 2 \<rparr>
   \<and> fst (build_layers construct
         \<lparr> rotation_ops = [RZ], rotation_layer = Layer Op1QAllLayer,
           rotation_layer_params = [''has_params'' \<mapsto> PyBool True, ''trainable'' \<mapsto> PyBool True],
           entanglement_ops = [RXX, RYY], entanglement_layer = Layer Op2QAllLayer,
           entanglement_layer_params = [''circular'' \<mapsto> PyBool True],
           initial_circuit = None, skip_final_rotation_layer = True,
           reps = 1, n_wires = 2 \<rparr>)
     = Inr [Built Op1QAllLayer RZ 2 [''has_params'' \<mapsto> PyBool True, ''trainable'' \<mapsto> PyBool True],
            Built Op2QAllLayer RXX 2 [''circular'' \<mapsto> PyBool True],
            Built Op2QAllLayer RYY 2 [''circular'' \<mapsto> PyBool True]]"
  by (simp add: entanglement_type_def TwoLocal_init_def NLocal_init_def ExcitationPreserving_def
        build_layers_def build_rotation_block_def build_entanglement_block_def call_layer_def
        construct_def)

section \<open>The presets\<close>

text \<open>
  Claim C7. Whatever the caller passes, \<^verbatim>\<open>EfficientSU2\<close> is the configuration with
  rotation operations \<^verbatim>\<open>[RY, RZ]\<close>, entanglement operations \<^verbatim>\<open>[CNOT]\<close>, the rotation
  layer \<^verbatim>\<open>Op1QAllLayer\<close> with \<^verbatim>\<open>{"has_params": True, "trainable": True}\<close>, which no
  argument of the preset reaches, and the entanglement layer and parameters that the
  dispatch of \<^verbatim>\<open>TwoLocal.__init__\<close> makes of its topology argument; the defaults are
  \<^verbatim>\<open>"reverse_linear"\<close> and \<open>reps = 3\<close>.
\<close>

theorem EfficientSU2_configuration:
  "(EfficientSU2 n ent_layer r skip :: error + 'b NLocal) =
     Inr \<lparr> rotation_ops = [RY, RZ],
       rotation_layer = Layer Op1QAllLayer,
       rotation_layer_params = [''has_params'' \<mapsto> PyBool True, ''trainable'' \<mapsto> PyBool True],
       entanglement_ops = [CNOT],
       entanglement_layer = fst (entanglement_type (kwarg ent_layer (Name ''reverse_linear'')) Map.empty),
       entanglement_layer_params =
         snd (entanglement_type (kwarg ent_layer (Name ''reverse_linear'')) Map.empty),
       initial_circuit = None,
       skip_final_rotation_layer = kwarg skip False,
       reps = kwarg r 3,
       n_wires = n \<rparr>
   \<and> (EfficientSU2 n None None None :: error + 'b NLocal) =
     Inr \<lparr> rotation_ops = [RY, RZ],
       rotation_layer = Layer Op1QAllLayer,
       rotation_layer_params = [''has_params'' \<mapsto> PyBool True, ''trainable'' \<mapsto> PyBool True],
       entanglement_ops = [CNOT],
       entanglement_layer = Layer Op2QAllLayer,
       entanglement_layer_params = [''wire_reverse'' \<mapsto> PyBool True],
       initial_circuit = None,
       skip_final_rotation_layer = False,
       reps = 3,
       n_wires = n \<rparr>"
  by (simp add: EfficientSU2_def TwoLocal_init_def NLocal_init_def entanglement_type_def
        split: prod.splits)

theorem EfficientSU2_configuration_witness:
  "(EfficientSU2 4 (Some (Name ''full'')) (Some 2) None :: error + block NLocal) =
     Inr \<lparr> rotation_ops = [RY, RZ],
       rotation_layer = Layer Op1QAllLayer,
       rotation_layer_params = [''has_params'' \<mapsto> PyBool True, ''trainable'' \<mapsto> PyBool True],
       entanglement_ops = [CNOT],
       entanglement_layer = Layer Op2QDenseLayer,
       entanglement_layer_params = Map.empty,
       initial_circuit = None,
       skip_final_rotation_layer = False,
       reps = 2,
       n_wires = 4 \<rparr>"
  using EfficientSU2_configuration [of 4 "Some (Name ''full'')" "Some 2" None, where ?'b = block]
  by (simp add: entanglement_type_def)

text \<open>
  Claim C8. \<^verbatim>\<open>ExcitationPreserving\<close> with \<open>reps = 1\<close> and
  \<^verbatim>\<open>skip_final_rotation_layer = True\<close> builds exactly three blocks, in order: one from
  \<^verbatim>\<open>RZ\<close>, one from \<^verbatim>\<open>RXX\<close>, one from \<^verbatim>\<open>RYY\<close>, and no trailing rotation block. The
  preset constructs its object, and the build on it returns exactly when these three
  constructor calls do; \<open>el\<close> and \<open>ps\<close> are the entanglement layer and parameters of
  the chosen topology.
\<close>

theorem ExcitationPreserving_one_rep:
  assumes "entanglement_type (kwarg ent_layer (Name ''full''))
             [''has_params'' \<mapsto> PyBool True, ''trainable'' \<mapsto> PyBool True] = (el, ps)"
  shows "\<exists>self. ExcitationPreserving n ent_layer (Some 1) (Some True) = Inr self
    \<and> (fst (build_layers ctor self) = Inr bs \<longleftrightarrow>
        (\<exists>b1 b2 b3. bs = [b1, b2, b3]
           \<and> ctor Op1QAllLayer RZ n [''has_params'' \<mapsto> PyBool True, ''trainable'' \<mapsto> PyBool True] = Inr b1
           \<and> call_layer ctor el RXX n ps = Inr b2
           \<and> call_layer ctor el RYY n ps = Inr b3))"
  using assms
  by (auto simp: ExcitationPreserving_def TwoLocal_init_def NLocal_init_def build_layers_fst
        build_rotation_block_def build_entanglement_block_def call_layer_def
      split: sum.splits)

theorem ExcitationPreserving_one_rep_witness:
  "entanglement_type (kwarg None (Name ''full''))
       [''has_params'' \<mapsto> PyBool True, ''trainable'' \<mapsto> PyBool True]
     = (Layer Op2QDenseLayer, [''has_params'' \<mapsto> PyBool True, ''trainable'' \<mapsto> PyBool True])
   \<and> ExcitationPreserving 4 None (Some 1) (Some True)
     = Inr \<lparr> rotation_ops = [RZ], rotation_layer = Layer Op1QAllLayer,
             rotation_layer_params = [''has_params'' \<mapsto> PyBool True, ''trainable'' \<mapsto> PyBool True],
             entanglement_ops = [RXX, RYY], entanglement_layer = Layer Op2QDenseLayer,
             entanglement_layer_params = [''has_params'' \<mapsto> PyBool True, ''trainable'' \<mapsto> PyBool True],
             initial_circuit = (None :: block option), skip_final_rotation_layer = True,
             reps = 1, n_wires = 4 \<rparr>
   \<and> fst (build_layers construct
         \<lparr> rotation_ops = [RZ], rotation_layer = Layer Op1QAllLayer,
           rotation_layer_params = [''has_params'' \<mapsto> PyBool True, ''trainable'' \<mapsto> PyBool True],
           entanglement_ops = [RXX, RYY], entanglement_layer = Layer Op2QDenseLayer,
           entanglement_layer_params = [''has_params'' \<mapsto> PyBool True, ''trainable'' \<mapsto> PyBool True],
           initial_circuit = None, skip_final_rotation_layer = True,
           reps = 1, n_wires = 4 \<rparr>)
     = Inr [Built Op1QAllLayer RZ 4 [''has_params'' \<mapsto> PyBool True, ''trainable'' \<mapsto> PyBool True],
            Built Op2QDenseLayer RXX 4 [''has_params'' \<mapsto> PyBool True, ''trainable'' \<mapsto> PyBool True],
            Built Op2QDenseLayer RYY 4 [''has_params'' \<mapsto> PyBool True, ''trainable'' \<mapsto> PyBool True]]"
proof -
  have t: "entanglement_type (kwarg None (Name ''full''))
       [''has_params'' \<mapsto> PyBool True, ''trainable'' \<mapsto> PyBool True]
     = (Layer Op2QDenseLayer, [''has_params'' \<mapsto> PyBool True, ''trainable'' \<mapsto> PyBool True])"
    by (simp add: entanglement_type_def)
  have c: "ExcitationPreserving 4 None (Some 1) (Some True)
     = Inr (\<lparr> rotation_ops = [RZ], rotation_layer = Layer Op1QAllLayer,
             rotation_layer_params = [''has_params'' \<mapsto> PyBool True, ''trainable'' \<mapsto> PyBool True],
             entanglement_ops = [RXX, RYY], entanglement_layer = Layer Op2QDenseLayer,
             entanglement_layer_params = [''has_params'' \<mapsto> PyBool True, ''trainable'' \<mapsto> PyBool True],
             initial_circuit = None, skip_final_rotation_layer = True,
             reps = 1, n_wires = 4 \<rparr> :: block NLocal)"
    by (simp add: ExcitationPreserving_def TwoLocal_init_def NLocal_init_def entanglement_type_def)
  show ?thesis
    using t c ExcitationPreserving_one_rep [OF t, of 4 construct]
    by (simp add: call_layer_def construct_def)
qed

section \<open>The methods on the store: what a build leaves as it was, and what it builds\<close>

text \<open>
  Lists of the store that only grow at new addresses keep what they had.
\<close>

lemma prefix_nth: "prefix xs ys \<Longrightarrow> i < length xs \<Longrightarrow> ys ! i = xs ! i"
  by (auto simp: prefix_def nth_append)

lemma prefix_update: "prefix xs ys \<Longrightarrow> length xs \<le> r \<Longrightarrow> prefix xs (ys[r := v])"
  by (auto simp: prefix_def list_update_append)

lemma prefix_by_nth:
  assumes "length xs \<le> length ys" and "\<And>i. i < length xs \<Longrightarrow> ys ! i = xs ! i"
  shows "prefix xs ys"
proof -
  have "xs = take (length xs) ys"
    using assms by (intro nth_equalityI) simp_all
  then show ?thesis
    by (metis take_is_prefix)
qed

lemma preserved_refl: "preserved h h"
  by (simp add: preserved_def)

lemma preserved_trans: "preserved h1 h2 \<Longrightarrow> preserved h2 h3 \<Longrightarrow> preserved h1 h3"
  unfolding preserved_def by (meson prefix_order.order_trans)

lemma preserved_obj: "preserved h h' \<Longrightarrow> a < length (objects h) \<Longrightarrow> objects h' ! a = objects h ! a"
  by (simp add: preserved_def prefix_nth)

lemma preserved_dict: "preserved h h' \<Longrightarrow> a < length (dicts h) \<Longrightarrow> dicts h' ! a = dicts h ! a"
  by (simp add: preserved_def prefix_nth)

lemma preserved_list: "preserved h h' \<Longrightarrow> a < length (pylists h) \<Longrightarrow> pylists h' ! a = pylists h ! a"
  by (simp add: preserved_def prefix_nth)

lemma preserved_lengths:
  "preserved h h' \<Longrightarrow>
     length (objects h) \<le> length (objects h') \<and> length (dicts h) \<le> length (dicts h')
     \<and> length (pylists h) \<le> length (pylists h')"
  by (simp add: preserved_def prefix_length_le)

lemma preserved_valid: "preserved h h' \<Longrightarrow> valid h self \<Longrightarrow> valid h' self"
  using preserved_lengths [of h h'] preserved_obj [of h h' self]
  by (auto simp: valid_def)

lemma preserved_field_values:
  "preserved h h' \<Longrightarrow> valid h self \<Longrightarrow> field_values h' self = field_values h self"
  by (simp add: field_values_def valid_def preserved_obj preserved_dict preserved_list)

lemma preserved_new_list: "preserved h (snd (new_list h))"
  by (simp add: new_list_def preserved_def)

lemma preserved_append_to:
  "preserved h0 h \<Longrightarrow> length (pylists h0) \<le> r \<Longrightarrow> preserved h0 (append_to r x h)"
  by (simp add: preserved_def append_to_def prefix_update)

lemma preserved_extend:
  "preserved h0 h \<Longrightarrow> length (pylists h0) \<le> r \<Longrightarrow> preserved h0 (extend_by r s h)"
  by (simp add: preserved_def extend_by_def prefix_update)

lemma call_layer_h_preserved:
  assumes "confined ctor" and "call_layer_h ctor layer g n d h = (res, h')"
  shows "preserved h h'"
proof (cases layer)
  case (Name s)
  with assms show ?thesis
    by (simp add: call_layer_h_def preserved_refl)
next
  case (Layer k)
  show ?thesis
  proof (cases "(dicts h ! d) ''op'' = None \<and> (dicts h ! d) ''n_wires'' = None")
    case False
    with Layer assms show ?thesis
      by (auto simp: call_layer_h_def preserved_refl)
  next
    case True
    let ?h1 = "h\<lparr>dicts := dicts h @ [dicts h ! d]\<rparr>"
    have h': "h' = snd (ctor k g n (length (dicts h)) ?h1)"
      using Layer True assms(2) by (simp add: call_layer_h_def new_dict_def)
    from assms(1) have c:
      "prefix (objects ?h1) (objects h')" "prefix (pylists ?h1) (pylists h')"
      "length (dicts ?h1) \<le> length (dicts h')"
      "\<And>a. a < length (dicts ?h1) \<Longrightarrow> a \<noteq> length (dicts h) \<Longrightarrow> dicts h' ! a = dicts ?h1 ! a"
      unfolding confined_def h' by blast+
    have "prefix (dicts h) (dicts h')"
    proof (rule prefix_by_nth)
      show "length (dicts h) \<le> length (dicts h')"
        using c(3) by simp
      show "dicts h' ! i = dicts h ! i" if "i < length (dicts h)" for i
        using c(4) [of i] that by (simp add: nth_append)
    qed
    with c(1,2) show ?thesis
      by (simp add: preserved_def)
  qed
qed


lemma rotation_loop_h_returns:
  assumes c: "confined ctor" and v: "valid h0 self" and r0: "length (pylists h0) \<le> r"
  shows "preserved h0 h \<Longrightarrow> r < length (pylists h) \<Longrightarrow>
     \<exists>res h'. rotation_loop_h ctor self (rotation_ops (objects h0 ! self)) r i h = Some (res, h')
        \<and> preserved h0 h' \<and> r < length (pylists h')
        \<and> (\<forall>u. res = Inr u \<longrightarrow>
              (\<exists>bs. pylists h' ! r = pylists h ! r @ map Blk bs
                 \<and> list_all2 (built_by ctor) (drop i (rotation_calls (field_values h0 self))) bs))"
proof (induction "length (pylists h0 ! rotation_ops (objects h0 ! self)) - i" arbitrary: i h)
  case 0
  let ?ops = "rotation_ops (objects h0 ! self)"
  have ops: "pylists h ! ?ops = pylists h0 ! ?ops"
    using "0.prems"(1) v by (simp add: preserved_list valid_def)
  have stop: "\<not> i < length (pylists h ! ?ops)"
    using "0.hyps" ops by simp
  have "rotation_loop_h ctor self ?ops r i h = Some (Inr (), h)"
    using stop by (subst rotation_loop_h.simps) simp
  moreover have "drop i (rotation_calls (field_values h0 self)) = []"
    using stop ops by (simp add: rotation_calls_def field_values_def)
  ultimately show ?case
    using "0.prems" by simp
next
  case (Suc m)
  let ?ops = "rotation_ops (objects h0 ! self)"
  let ?d = "rotation_layer_params (objects h0 ! self)"
  let ?cfg = "field_values h0 self"
  have ops: "pylists h ! ?ops = pylists h0 ! ?ops"
    using Suc.prems(1) v by (simp add: preserved_list valid_def)
  have obj: "objects h ! self = objects h0 ! self"
    using Suc.prems(1) v by (simp add: preserved_obj valid_def)
  have dict: "dicts h ! ?d = dicts h0 ! ?d" "?d < length (dicts h)"
    using Suc.prems(1) v preserved_lengths [OF Suc.prems(1)]
    by (simp_all add: preserved_dict valid_def)
  have go: "i < length (pylists h ! ?ops)"
    using Suc.hyps(2) ops by simp
  obtain res1 h1 where call:
    "call_layer_h ctor (rotation_layer (objects h0 ! self)) (pylists h0 ! ?ops ! i)
       (n_wires (objects h0 ! self)) ?d h = (res1, h1)"
    by (cases "call_layer_h ctor (rotation_layer (objects h0 ! self)) (pylists h0 ! ?ops ! i)
       (n_wires (objects h0 ! self)) ?d h")
  have p1: "preserved h h1"
    using c call by (rule call_layer_h_preserved)
  have p01: "preserved h0 h1"
    using Suc.prems(1) p1 by (rule preserved_trans)
  have r1: "r < length (pylists h1)" "pylists h1 ! r = pylists h ! r"
    using Suc.prems(2) preserved_lengths [OF p1] p1 by (simp_all add: preserved_list)
  show ?case
  proof (cases res1)
    case (Inl e)
    have "rotation_loop_h ctor self ?ops r i h = Some (Inl e, h1)"
      using go call Inl by (subst rotation_loop_h.simps) (simp add: obj ops)
    then show ?thesis
      using p01 r1 by simp
  next
    case (Inr b)
    let ?h2 = "append_to r (Blk b) h1"
    have unfold: "rotation_loop_h ctor self ?ops r i h = rotation_loop_h ctor self ?ops r (Suc i) ?h2"
      using go call Inr by (subst rotation_loop_h.simps) (simp add: obj ops)
    have p02: "preserved h0 ?h2"
      using p01 r0 by (rule preserved_append_to)
    have r2: "r < length (pylists ?h2)" "pylists ?h2 ! r = pylists h ! r @ [Blk b]"
      using r1 by (simp_all add: append_to_def)
    have m: "m = length (pylists h0 ! ?ops) - Suc i"
      using Suc.hyps(2) by simp
    from Suc.hyps(1) [OF m p02 r2(1)] obtain res h' where ih:
      "rotation_loop_h ctor self ?ops r (Suc i) ?h2 = Some (res, h')"
      "preserved h0 h'" "r < length (pylists h')"
      "\<And>u. res = Inr u \<Longrightarrow>
         \<exists>bs. pylists h' ! r = pylists ?h2 ! r @ map Blk bs
            \<and> list_all2 (built_by ctor) (drop (Suc i) (rotation_calls ?cfg)) bs"
      by blast
    have built: "built_by ctor (rotation_calls ?cfg ! i) b"
    proof -
      have "rotation_calls ?cfg ! i
          = (rotation_layer (objects h0 ! self), pylists h0 ! ?ops ! i, n_wires (objects h0 ! self),
             dicts h0 ! ?d)"
        using go ops by (simp add: rotation_calls_def field_values_def)
      then show ?thesis
        using call Inr dict unfolding built_by_def by auto
    qed
    have len: "i < length (rotation_calls ?cfg)"
      using go ops by (simp add: rotation_calls_def field_values_def)
    have result: "\<exists>bs. pylists h' ! r = pylists h ! r @ map Blk bs
            \<and> list_all2 (built_by ctor) (drop i (rotation_calls ?cfg)) bs"
      if "res = Inr u" for u
    proof -
      from ih(4) [OF that] obtain bs where bs:
        "pylists h' ! r = pylists ?h2 ! r @ map Blk bs"
        "list_all2 (built_by ctor) (drop (Suc i) (rotation_calls ?cfg)) bs"
        by blast
      have "pylists h' ! r = pylists h ! r @ map Blk (b # bs)"
        using bs(1) r2(2) by simp
      moreover have "list_all2 (built_by ctor) (drop i (rotation_calls ?cfg)) (b # bs)"
        using bs(2) built len by (simp flip: Cons_nth_drop_Suc)
      ultimately show ?thesis
        by blast
    qed
    show ?thesis
      using unfold ih(1-3) result by auto
  qed
qed

lemma entanglement_loop_h_returns:
  assumes c: "confined ctor" and v: "valid h0 self" and r0: "length (pylists h0) \<le> r"
  shows "preserved h0 h \<Longrightarrow> r < length (pylists h) \<Longrightarrow>
     \<exists>res h'. entanglement_loop_h ctor self (entanglement_ops (objects h0 ! self)) r i h = Some (res, h')
        \<and> preserved h0 h' \<and> r < length (pylists h')
        \<and> (\<forall>u. res = Inr u \<longrightarrow>
              (\<exists>bs. pylists h' ! r = pylists h ! r @ map Blk bs
                 \<and> list_all2 (built_by ctor) (drop i (entanglement_calls (field_values h0 self))) bs))"
proof (induction "length (pylists h0 ! entanglement_ops (objects h0 ! self)) - i" arbitrary: i h)
  case 0
  let ?ops = "entanglement_ops (objects h0 ! self)"
  have ops: "pylists h ! ?ops = pylists h0 ! ?ops"
    using "0.prems"(1) v by (simp add: preserved_list valid_def)
  have stop: "\<not> i < length (pylists h ! ?ops)"
    using "0.hyps" ops by simp
  have "entanglement_loop_h ctor self ?ops r i h = Some (Inr (), h)"
    using stop by (subst entanglement_loop_h.simps) simp
  moreover have "drop i (entanglement_calls (field_values h0 self)) = []"
    using stop ops by (simp add: entanglement_calls_def field_values_def)
  ultimately show ?case
    using "0.prems" by simp
next
  case (Suc m)
  let ?ops = "entanglement_ops (objects h0 ! self)"
  let ?d = "entanglement_layer_params (objects h0 ! self)"
  let ?cfg = "field_values h0 self"
  have ops: "pylists h ! ?ops = pylists h0 ! ?ops"
    using Suc.prems(1) v by (simp add: preserved_list valid_def)
  have obj: "objects h ! self = objects h0 ! self"
    using Suc.prems(1) v by (simp add: preserved_obj valid_def)
  have dict: "dicts h ! ?d = dicts h0 ! ?d" "?d < length (dicts h)"
    using Suc.prems(1) v preserved_lengths [OF Suc.prems(1)]
    by (simp_all add: preserved_dict valid_def)
  have go: "i < length (pylists h ! ?ops)"
    using Suc.hyps(2) ops by simp
  obtain res1 h1 where call:
    "call_layer_h ctor (entanglement_layer (objects h0 ! self)) (pylists h0 ! ?ops ! i)
       (n_wires (objects h0 ! self)) ?d h = (res1, h1)"
    by (cases "call_layer_h ctor (entanglement_layer (objects h0 ! self)) (pylists h0 ! ?ops ! i)
       (n_wires (objects h0 ! self)) ?d h")
  have p1: "preserved h h1"
    using c call by (rule call_layer_h_preserved)
  have p01: "preserved h0 h1"
    using Suc.prems(1) p1 by (rule preserved_trans)
  have r1: "r < length (pylists h1)" "pylists h1 ! r = pylists h ! r"
    using Suc.prems(2) preserved_lengths [OF p1] p1 by (simp_all add: preserved_list)
  show ?case
  proof (cases res1)
    case (Inl e)
    have "entanglement_loop_h ctor self ?ops r i h = Some (Inl e, h1)"
      using go call Inl by (subst entanglement_loop_h.simps) (simp add: obj ops)
    then show ?thesis
      using p01 r1 by simp
  next
    case (Inr b)
    let ?h2 = "append_to r (Blk b) h1"
    have unfold: "entanglement_loop_h ctor self ?ops r i h = entanglement_loop_h ctor self ?ops r (Suc i) ?h2"
      using go call Inr by (subst entanglement_loop_h.simps) (simp add: obj ops)
    have p02: "preserved h0 ?h2"
      using p01 r0 by (rule preserved_append_to)
    have r2: "r < length (pylists ?h2)" "pylists ?h2 ! r = pylists h ! r @ [Blk b]"
      using r1 by (simp_all add: append_to_def)
    have m: "m = length (pylists h0 ! ?ops) - Suc i"
      using Suc.hyps(2) by simp
    from Suc.hyps(1) [OF m p02 r2(1)] obtain res h' where ih:
      "entanglement_loop_h ctor self ?ops r (Suc i) ?h2 = Some (res, h')"
      "preserved h0 h'" "r < length (pylists h')"
      "\<And>u. res = Inr u \<Longrightarrow>
         \<exists>bs. pylists h' ! r = pylists ?h2 ! r @ map Blk bs
            \<and> list_all2 (built_by ctor) (drop (Suc i) (entanglement_calls ?cfg)) bs"
      by blast
    have built: "built_by ctor (entanglement_calls ?cfg ! i) b"
    proof -
      have "entanglement_calls ?cfg ! i
          = (entanglement_layer (objects h0 ! self), pylists h0 ! ?ops ! i, n_wires (objects h0 ! self),
             dicts h0 ! ?d)"
        using go ops by (simp add: entanglement_calls_def field_values_def)
      then show ?thesis
        using call Inr dict unfolding built_by_def by auto
    qed
    have len: "i < length (entanglement_calls ?cfg)"
      using go ops by (simp add: entanglement_calls_def field_values_def)
    have result: "\<exists>bs. pylists h' ! r = pylists h ! r @ map Blk bs
            \<and> list_all2 (built_by ctor) (drop i (entanglement_calls ?cfg)) bs"
      if "res = Inr u" for u
    proof -
      from ih(4) [OF that] obtain bs where bs:
        "pylists h' ! r = pylists ?h2 ! r @ map Blk bs"
        "list_all2 (built_by ctor) (drop (Suc i) (entanglement_calls ?cfg)) bs"
        by blast
      have "pylists h' ! r = pylists h ! r @ map Blk (b # bs)"
        using bs(1) r2(2) by simp
      moreover have "list_all2 (built_by ctor) (drop i (entanglement_calls ?cfg)) (b # bs)"
        using bs(2) built len by (simp flip: Cons_nth_drop_Suc)
      ultimately show ?thesis
        by blast
    qed
    show ?thesis
      using unfold ih(1-3) result by auto
  qed
qed


lemma build_rotation_block_h_returns:
  assumes c: "confined ctor" and v: "valid h self"
  shows "\<exists>res h'. build_rotation_block_h ctor self h = Some (res, h') \<and> preserved h h'
     \<and> (\<forall>r. res = Inr r \<longrightarrow> length (pylists h) \<le> r \<and> r < length (pylists h')
           \<and> (\<exists>bs. pylists h' ! r = map Blk bs
                 \<and> list_all2 (built_by ctor) (rotation_calls (field_values h self)) bs))"
proof -
  let ?r = "length (pylists h)"
  let ?h1 = "h\<lparr>pylists := pylists h @ [[]]\<rparr>"
  have p: "preserved h ?h1"
    using preserved_new_list [of h] by (simp add: new_list_def)
  have obj: "objects ?h1 ! self = objects h ! self"
    by simp
  from rotation_loop_h_returns [OF c v order_refl p, of 0] obtain res h' where loop:
    "rotation_loop_h ctor self (rotation_ops (objects h ! self)) ?r 0 ?h1 = Some (res, h')"
    "preserved h h'" "?r < length (pylists h')"
    "\<And>u. res = Inr u \<Longrightarrow>
       \<exists>bs. pylists h' ! ?r = pylists ?h1 ! ?r @ map Blk bs
          \<and> list_all2 (built_by ctor) (drop 0 (rotation_calls (field_values h self))) bs"
    by auto
  show ?thesis
  proof (cases res)
    case (Inl e)
    then show ?thesis
      using loop(1,2) by (simp add: build_rotation_block_h_def new_list_def)
  next
    case (Inr u)
    from loop(4) [OF Inr] show ?thesis
      using loop(1-3) Inr by (auto simp: build_rotation_block_h_def new_list_def)
  qed
qed

lemma build_entanglement_block_h_returns:
  assumes c: "confined ctor" and v: "valid h self"
  shows "\<exists>res h'. build_entanglement_block_h ctor self h = Some (res, h') \<and> preserved h h'
     \<and> (\<forall>r. res = Inr r \<longrightarrow> length (pylists h) \<le> r \<and> r < length (pylists h')
           \<and> (\<exists>bs. pylists h' ! r = map Blk bs
                 \<and> list_all2 (built_by ctor) (entanglement_calls (field_values h self)) bs))"
proof -
  let ?r = "length (pylists h)"
  let ?h1 = "h\<lparr>pylists := pylists h @ [[]]\<rparr>"
  have p: "preserved h ?h1"
    using preserved_new_list [of h] by (simp add: new_list_def)
  have obj: "objects ?h1 ! self = objects h ! self"
    by simp
  from entanglement_loop_h_returns [OF c v order_refl p, of 0] obtain res h' where loop:
    "entanglement_loop_h ctor self (entanglement_ops (objects h ! self)) ?r 0 ?h1 = Some (res, h')"
    "preserved h h'" "?r < length (pylists h')"
    "\<And>u. res = Inr u \<Longrightarrow>
       \<exists>bs. pylists h' ! ?r = pylists ?h1 ! ?r @ map Blk bs
          \<and> list_all2 (built_by ctor) (drop 0 (entanglement_calls (field_values h self))) bs"
    by auto
  show ?thesis
  proof (cases res)
    case (Inl e)
    then show ?thesis
      using loop(1,2) by (simp add: build_entanglement_block_h_def new_list_def)
  next
    case (Inr u)
    from loop(4) [OF Inr] show ?thesis
      using loop(1-3) Inr by (auto simp: build_entanglement_block_h_def new_list_def)
  qed
qed


lemma extend_by_nth:
  "la < length (pylists h) \<Longrightarrow> pylists (extend_by la r h) ! la = pylists h ! la @ pylists h ! r"
  by (simp add: extend_by_def)

lemma extend_by_length: "length (pylists (extend_by la r h)) = length (pylists h)"
  by (simp add: extend_by_def)

lemma reps_loop_h_returns:
  assumes c: "confined ctor" and v: "valid h0 self" and la0: "length (pylists h0) \<le> la"
  shows "preserved h0 h \<Longrightarrow> la < length (pylists h) \<Longrightarrow>
     \<exists>res h'. reps_loop_h ctor self la k h = Some (res, h')
        \<and> preserved h0 h' \<and> la < length (pylists h')
        \<and> (\<forall>u. res = Inr u \<longrightarrow>
              (\<exists>bs. pylists h' ! la = pylists h ! la @ map Blk bs
                 \<and> list_all2 (built_by ctor)
                      (concat (replicate k (rotation_calls (field_values h0 self)
                                            @ entanglement_calls (field_values h0 self)))) bs))"
proof (induction k arbitrary: h)
  case 0
  then show ?case by simp
next
  case (Suc k)
  let ?cfg = "field_values h0 self"
  have vh: "valid h self"
    using Suc.prems(1) v by (rule preserved_valid)
  have fh: "field_values h self = ?cfg"
    using Suc.prems(1) v by (rule preserved_field_values)
  from build_rotation_block_h_returns [OF c vh] obtain res1 h1 where rot:
    "build_rotation_block_h ctor self h = Some (res1, h1)" "preserved h h1"
    "\<And>r. res1 = Inr r \<Longrightarrow> length (pylists h) \<le> r \<and> r < length (pylists h1)
       \<and> (\<exists>bs. pylists h1 ! r = map Blk bs \<and> list_all2 (built_by ctor) (rotation_calls ?cfg) bs)"
    unfolding fh by blast
  have p01: "preserved h0 h1"
    using Suc.prems(1) rot(2) by (rule preserved_trans)
  have la1: "la < length (pylists h1)" "pylists h1 ! la = pylists h ! la"
    using Suc.prems(2) preserved_lengths [OF rot(2)] rot(2) by (simp_all add: preserved_list)
  show ?case
  proof (cases res1)
    case (Inl e)
    then show ?thesis
      using rot(1) p01 la1 by simp
  next
    case (Inr r)
    from rot(3) [OF Inr] obtain bs1 where bs1:
      "pylists h1 ! r = map Blk bs1" "list_all2 (built_by ctor) (rotation_calls ?cfg) bs1"
      by blast
    let ?h1 = "extend_by la r h1"
    have p01': "preserved h0 ?h1"
      using p01 la0 by (rule preserved_extend)
    have la1': "la < length (pylists ?h1)" "pylists ?h1 ! la = pylists h ! la @ map Blk bs1"
      using la1 bs1(1) by (simp_all add: extend_by_nth extend_by_length)
    have v1: "valid ?h1 self"
      using p01' v by (rule preserved_valid)
    have f1: "field_values ?h1 self = ?cfg"
      using p01' v by (rule preserved_field_values)
    from build_entanglement_block_h_returns [OF c v1] obtain res2 h2 where ent:
      "build_entanglement_block_h ctor self ?h1 = Some (res2, h2)" "preserved ?h1 h2"
      "\<And>s. res2 = Inr s \<Longrightarrow> length (pylists ?h1) \<le> s \<and> s < length (pylists h2)
         \<and> (\<exists>bs. pylists h2 ! s = map Blk bs
               \<and> list_all2 (built_by ctor) (entanglement_calls ?cfg) bs)"
      unfolding f1 by blast
    have p02: "preserved h0 h2"
      using p01' ent(2) by (rule preserved_trans)
    have la2: "la < length (pylists h2)" "pylists h2 ! la = pylists h ! la @ map Blk bs1"
      using la1' preserved_lengths [OF ent(2)] ent(2) by (simp_all add: preserved_list)
    show ?thesis
    proof (cases res2)
      case (Inl e)
      then show ?thesis
        using rot(1) Inr ent(1) p02 la2 by simp
    next
      case ent_ok: (Inr s)
      from ent(3) [OF ent_ok] obtain bs2 where bs2:
        "pylists h2 ! s = map Blk bs2" "list_all2 (built_by ctor) (entanglement_calls ?cfg) bs2"
        by blast
      let ?h2 = "extend_by la s h2"
      have p02': "preserved h0 ?h2"
        using p02 la0 by (rule preserved_extend)
      have la2': "la < length (pylists ?h2)"
        "pylists ?h2 ! la = pylists h ! la @ map Blk bs1 @ map Blk bs2"
        using la2 bs2(1) by (simp_all add: extend_by_nth extend_by_length)
      from Suc.IH [OF p02' la2'(1)] obtain res h' where ih:
        "reps_loop_h ctor self la k ?h2 = Some (res, h')" "preserved h0 h'"
        "la < length (pylists h')"
        "\<And>u. res = Inr u \<Longrightarrow>
           \<exists>bs. pylists h' ! la = pylists ?h2 ! la @ map Blk bs
              \<and> list_all2 (built_by ctor)
                   (concat (replicate k (rotation_calls ?cfg @ entanglement_calls ?cfg))) bs"
        by blast
      have step: "reps_loop_h ctor self la (Suc k) h = Some (res, h')"
        using rot(1) Inr ent(1) ent_ok ih(1) by simp
      have result: "\<exists>bs. pylists h' ! la = pylists h ! la @ map Blk bs
              \<and> list_all2 (built_by ctor)
                   (concat (replicate (Suc k) (rotation_calls ?cfg @ entanglement_calls ?cfg))) bs"
        if "res = Inr u" for u
      proof -
        from ih(4) [OF that] obtain bs3 where bs3:
          "pylists h' ! la = pylists ?h2 ! la @ map Blk bs3"
          "list_all2 (built_by ctor)
             (concat (replicate k (rotation_calls ?cfg @ entanglement_calls ?cfg))) bs3"
          by blast
        have "pylists h' ! la = pylists h ! la @ map Blk (bs1 @ bs2 @ bs3)"
          using bs3(1) la2'(2) by simp
        moreover have "list_all2 (built_by ctor)
            (concat (replicate (Suc k) (rotation_calls ?cfg @ entanglement_calls ?cfg)))
            (bs1 @ bs2 @ bs3)"
          using bs1(2) bs2(2) bs3(2) by (simp add: list_all2_appendI)
        ultimately show ?thesis
          by blast
      qed
      show ?thesis
        using step ih(2,3) result by blast
    qed
  qed
qed

lemma build_layers_h_returns:
  assumes c: "confined ctor" and v: "valid h self"
  shows "\<exists>res h'. build_layers_h ctor self h = Some (res, h') \<and> preserved h h'
     \<and> (\<forall>la. res = Inr la \<longrightarrow> length (pylists h) \<le> la \<and> la < length (pylists h')
           \<and> (\<exists>bs. pylists h' ! la
                    = (case initial_circuit (field_values h self) of
                         None \<Rightarrow> [] | Some c \<Rightarrow> [Blk c]) @ map Blk bs
                 \<and> list_all2 (built_by ctor) (block_calls (field_values h self)) bs))"
proof -
  let ?cfg = "field_values h self"
  let ?la = "length (pylists h)"
  let ?h0 = "h\<lparr>pylists := pylists h @ [[]]\<rparr>"
  let ?init = "case initial_circuit ?cfg of None \<Rightarrow> [] | Some c \<Rightarrow> [Blk c]"
  let ?h1 = "case initial_circuit (objects h ! self) of
               None \<Rightarrow> ?h0 | Some c \<Rightarrow> append_to ?la (Blk c) ?h0"
  have p0: "preserved h ?h0"
    using preserved_new_list [of h] by (simp add: new_list_def)
  have p1: "preserved h ?h1"
    using p0 by (simp add: preserved_append_to split: option.split)
  have la1: "?la < length (pylists ?h1)" "pylists ?h1 ! ?la = ?init"
    by (simp_all add: append_to_def field_values_def split: option.split)
  have obj1: "objects ?h1 ! self = objects h ! self"
    using p1 v by (simp add: preserved_obj valid_def)
  from reps_loop_h_returns [OF c v order_refl p1 la1(1), of "nat (reps (objects h ! self))"]
  obtain res2 h2 where loop:
    "reps_loop_h ctor self ?la (nat (reps (objects h ! self))) ?h1 = Some (res2, h2)"
    "preserved h h2" "?la < length (pylists h2)"
    "\<And>u. res2 = Inr u \<Longrightarrow>
       \<exists>bs. pylists h2 ! ?la = ?init @ map Blk bs
          \<and> list_all2 (built_by ctor)
               (concat (replicate (nat (reps (objects h ! self)))
                  (rotation_calls ?cfg @ entanglement_calls ?cfg))) bs"
    unfolding la1(2) by blast
  have unfold: "build_layers_h ctor self h =
      (case Some (res2, h2) of
         None \<Rightarrow> None
       | Some (Inl e, h2) \<Rightarrow> Some (Inl e, h2)
       | Some (Inr u, h2) \<Rightarrow>
           if \<not> skip_final_rotation_layer (objects h2 ! self) then
             (case build_rotation_block_h ctor self h2 of
                None \<Rightarrow> None
              | Some (Inl e, h3) \<Rightarrow> Some (Inl e, h3)
              | Some (Inr rs, h3) \<Rightarrow> Some (Inr ?la, extend_by ?la rs h3))
           else Some (Inr ?la, h2))"
    unfolding build_layers_h_def new_list_def
    by (simp add: obj1 loop(1) Let_def)
  have obj2: "objects h2 ! self = objects h ! self"
    using loop(2) v by (simp add: preserved_obj valid_def)
  have reps: "reps ?cfg = reps (objects h ! self)"
    "skip_final_rotation_layer ?cfg = skip_final_rotation_layer (objects h ! self)"
    by (simp_all add: field_values_def)
  show ?thesis
  proof (cases res2)
    case (Inl e)
    then show ?thesis
      using unfold loop(2) by simp
  next
    case (Inr u)
    from loop(4) [OF Inr] obtain bs where bs:
      "pylists h2 ! ?la = ?init @ map Blk bs"
      "list_all2 (built_by ctor)
         (concat (replicate (nat (reps (objects h ! self)))
            (rotation_calls ?cfg @ entanglement_calls ?cfg))) bs"
      by blast
    show ?thesis
    proof (cases "skip_final_rotation_layer (objects h ! self)")
      case True
      have "build_layers_h ctor self h = Some (Inr ?la, h2)"
        using unfold Inr True obj2 by simp
      moreover have "list_all2 (built_by ctor) (block_calls ?cfg) bs"
        using bs(2) True by (simp add: block_calls_def reps)
      ultimately show ?thesis
        using loop(2,3) bs(1) by auto
    next
      case False
      have v2: "valid h2 self"
        using loop(2) v by (rule preserved_valid)
      have f2: "field_values h2 self = ?cfg"
        using loop(2) v by (rule preserved_field_values)
      from build_rotation_block_h_returns [OF c v2] obtain res3 h3 where rot:
        "build_rotation_block_h ctor self h2 = Some (res3, h3)" "preserved h2 h3"
        "\<And>r. res3 = Inr r \<Longrightarrow> length (pylists h2) \<le> r \<and> r < length (pylists h3)
           \<and> (\<exists>bs. pylists h3 ! r = map Blk bs
                 \<and> list_all2 (built_by ctor) (rotation_calls ?cfg) bs)"
        unfolding f2 by blast
      have p3: "preserved h h3"
        using loop(2) rot(2) by (rule preserved_trans)
      have la3: "?la < length (pylists h3)" "pylists h3 ! ?la = ?init @ map Blk bs"
        using loop(3) preserved_lengths [OF rot(2)] rot(2) bs(1)
        by (simp_all add: preserved_list)
      show ?thesis
      proof (cases res3)
        case (Inl e)
        then show ?thesis
          using unfold Inr False obj2 rot(1) p3 by simp
      next
        case rot_ok: (Inr r)
        from rot(3) [OF rot_ok] obtain bs' where bs':
          "pylists h3 ! r = map Blk bs'" "list_all2 (built_by ctor) (rotation_calls ?cfg) bs'"
          by blast
        have "build_layers_h ctor self h = Some (Inr ?la, extend_by ?la r h3)"
          using unfold Inr False obj2 rot(1) rot_ok by simp
        moreover have "preserved h (extend_by ?la r h3)"
          using p3 by (simp add: preserved_extend)
        moreover have "pylists (extend_by ?la r h3) ! ?la = ?init @ map Blk (bs @ bs')"
          using la3 bs'(1) by (simp add: extend_by_nth)
        moreover have "list_all2 (built_by ctor) (block_calls ?cfg) (bs @ bs')"
          using bs(2) bs'(2) False by (simp add: block_calls_def reps list_all2_appendI)
        ultimately show ?thesis
          using la3(1) by (auto simp: extend_by_length simp del: map_append)
      qed
    qed
  qed
qed

lemma confined_seeded: "confined seeded"
  by (auto simp: confined_def seeded_def Let_def split: item.split)

section \<open>The two models agree\<close>

text \<open>
  For a constructor without state the methods on the store compute what the methods of
  the first part compute on the field values.
\<close>

lemma returning_simps [simp]: "returning r (Inl e) = Inl e" "returning r (Inr x) = Inr r"
  by (simp_all add: returning_def)

lemma confined_stateless: "confined (stateless ctor)"
  by (auto simp: confined_def stateless_def split: item.split)

lemma call_layer_h_stateless:
  "\<exists>h1. call_layer_h (stateless ctor) layer (Op g) n d h
          = (call_layer ctor layer g n (dicts h ! d), h1)"
  by (cases layer) (simp_all add: call_layer_h_def call_layer_def new_dict_def stateless_def)

lemma as_items_fields:
  assumes "field_values h self = as_items cfg"
  shows "pylists h ! rotation_ops (objects h ! self) = map Op (rotation_ops cfg)"
    and "pylists h ! entanglement_ops (objects h ! self) = map Op (entanglement_ops cfg)"
    and "dicts h ! rotation_layer_params (objects h ! self) = rotation_layer_params cfg"
    and "dicts h ! entanglement_layer_params (objects h ! self) = entanglement_layer_params cfg"
    and "rotation_layer (objects h ! self) = rotation_layer cfg"
    and "entanglement_layer (objects h ! self) = entanglement_layer cfg"
    and "n_wires (objects h ! self) = n_wires cfg"
    and "reps (objects h ! self) = reps cfg"
    and "initial_circuit (objects h ! self) = initial_circuit cfg"
    and "skip_final_rotation_layer (objects h ! self) = skip_final_rotation_layer cfg"
  using assms by (simp_all add: field_values_def as_items_def)

lemma rotation_loop_h_stateless:
  fixes cfg :: "'b NLocal"
  assumes v: "valid h0 self" and fv: "field_values h0 self = as_items cfg"
    and r0: "length (pylists h0) \<le> r"
  shows "preserved h0 h \<Longrightarrow> r < length (pylists h) \<Longrightarrow>
     \<exists>h'. rotation_loop_h (stateless ctor) self (rotation_ops (objects h0 ! self)) r i h
            = Some (returning () (rotation_loop ctor cfg [] (drop i (rotation_ops cfg))), h')
        \<and> preserved h0 h' \<and> r < length (pylists h')
        \<and> (\<forall>bs. rotation_loop ctor cfg [] (drop i (rotation_ops cfg)) = Inr bs \<longrightarrow>
              pylists h' ! r = pylists h ! r @ map Blk bs)"
proof (induction "length (rotation_ops cfg) - i" arbitrary: i h)
  case 0
  let ?ops = "rotation_ops (objects h0 ! self)"
  have ops: "pylists h ! ?ops = map Op (rotation_ops cfg)"
    using "0.prems"(1) v as_items_fields(1) [OF fv] by (simp add: preserved_list valid_def)
  have stop: "\<not> i < length (pylists h ! ?ops)"
    using "0.hyps" ops by simp
  have "rotation_loop_h (stateless ctor) self ?ops r i h = Some (Inr (), h)"
    using stop by (subst rotation_loop_h.simps) simp
  moreover have "drop i (rotation_ops cfg) = []"
    using stop ops by simp
  ultimately show ?case
    using "0.prems" by simp
next
  case (Suc m)
  let ?ops = "rotation_ops (objects h0 ! self)"
  let ?d = "rotation_layer_params (objects h0 ! self)"
  have ops: "pylists h ! ?ops = map Op (rotation_ops cfg)"
    using Suc.prems(1) v as_items_fields(1) [OF fv] by (simp add: preserved_list valid_def)
  have obj: "objects h ! self = objects h0 ! self"
    using Suc.prems(1) v by (simp add: preserved_obj valid_def)
  have dict: "dicts h ! ?d = rotation_layer_params cfg"
    using Suc.prems(1) v as_items_fields(3) [OF fv] by (simp add: preserved_dict valid_def)
  have go: "i < length (rotation_ops cfg)"
    using Suc.hyps(2) by simp
  let ?g = "rotation_ops cfg ! i"
  let ?res = "call_layer ctor (rotation_layer cfg) ?g (n_wires cfg) (rotation_layer_params cfg)"
  obtain h1 where call:
    "call_layer_h (stateless ctor) (rotation_layer (objects h0 ! self)) (Op ?g)
       (n_wires (objects h0 ! self)) ?d h = (?res, h1)"
    using call_layer_h_stateless [of ctor "rotation_layer (objects h0 ! self)" ?g
        "n_wires (objects h0 ! self)" ?d h]
    by (auto simp: dict as_items_fields(5,7) [OF fv])
  have p1: "preserved h h1"
    using confined_stateless call by (rule call_layer_h_preserved)
  have p01: "preserved h0 h1"
    using Suc.prems(1) p1 by (rule preserved_trans)
  have r1: "r < length (pylists h1)" "pylists h1 ! r = pylists h ! r"
    using Suc.prems(2) preserved_lengths [OF p1] p1 by (simp_all add: preserved_list)
  have pure: "rotation_loop ctor cfg [] (drop i (rotation_ops cfg))
      = (case ?res of Inl e \<Rightarrow> Inl e
         | Inr b \<Rightarrow> map_sum id ((@) [b]) (rotation_loop ctor cfg [] (drop (Suc i) (rotation_ops cfg))))"
    using go rotation_loop_acc [of ctor cfg "[_]" "drop (Suc i) (rotation_ops cfg)"]
    by (simp flip: Cons_nth_drop_Suc split: sum.split)
  show ?case
  proof (cases ?res)
    case (Inl e)
    have "rotation_loop_h (stateless ctor) self ?ops r i h = Some (Inl e, h1)"
      using go call Inl by (subst rotation_loop_h.simps) (simp add: obj ops)
    then show ?thesis
      using p01 r1 pure Inl by simp
  next
    case (Inr b)
    let ?h2 = "append_to r (Blk b) h1"
    have unfold: "rotation_loop_h (stateless ctor) self ?ops r i h
        = rotation_loop_h (stateless ctor) self ?ops r (Suc i) ?h2"
      using go call Inr by (subst rotation_loop_h.simps) (simp add: obj ops)
    have p02: "preserved h0 ?h2"
      using p01 r0 by (rule preserved_append_to)
    have r2: "r < length (pylists ?h2)" "pylists ?h2 ! r = pylists h ! r @ [Blk b]"
      using r1 by (simp_all add: append_to_def)
    have m: "m = length (rotation_ops cfg) - Suc i"
      using Suc.hyps(2) by simp
    from Suc.hyps(1) [OF m p02 r2(1)] obtain h' where ih:
      "rotation_loop_h (stateless ctor) self ?ops r (Suc i) ?h2
         = Some (returning ()
                   (rotation_loop ctor cfg [] (drop (Suc i) (rotation_ops cfg))), h')"
      "preserved h0 h'" "r < length (pylists h')"
      "\<And>bs. rotation_loop ctor cfg [] (drop (Suc i) (rotation_ops cfg)) = Inr bs \<Longrightarrow>
         pylists h' ! r = pylists ?h2 ! r @ map Blk bs"
      by blast
    show ?thesis
      using unfold ih r2(2) pure Inr
      by (cases "rotation_loop ctor cfg [] (drop (Suc i) (rotation_ops cfg))") auto
  qed
qed

lemma entanglement_loop_h_stateless:
  fixes cfg :: "'b NLocal"
  assumes v: "valid h0 self" and fv: "field_values h0 self = as_items cfg"
    and r0: "length (pylists h0) \<le> r"
  shows "preserved h0 h \<Longrightarrow> r < length (pylists h) \<Longrightarrow>
     \<exists>h'. entanglement_loop_h (stateless ctor) self (entanglement_ops (objects h0 ! self)) r i h
            = Some (returning () (entanglement_loop ctor cfg [] (drop i (entanglement_ops cfg))), h')
        \<and> preserved h0 h' \<and> r < length (pylists h')
        \<and> (\<forall>bs. entanglement_loop ctor cfg [] (drop i (entanglement_ops cfg)) = Inr bs \<longrightarrow>
              pylists h' ! r = pylists h ! r @ map Blk bs)"
proof (induction "length (entanglement_ops cfg) - i" arbitrary: i h)
  case 0
  let ?ops = "entanglement_ops (objects h0 ! self)"
  have ops: "pylists h ! ?ops = map Op (entanglement_ops cfg)"
    using "0.prems"(1) v as_items_fields(2) [OF fv] by (simp add: preserved_list valid_def)
  have stop: "\<not> i < length (pylists h ! ?ops)"
    using "0.hyps" ops by simp
  have "entanglement_loop_h (stateless ctor) self ?ops r i h = Some (Inr (), h)"
    using stop by (subst entanglement_loop_h.simps) simp
  moreover have "drop i (entanglement_ops cfg) = []"
    using stop ops by simp
  ultimately show ?case
    using "0.prems" by simp
next
  case (Suc m)
  let ?ops = "entanglement_ops (objects h0 ! self)"
  let ?d = "entanglement_layer_params (objects h0 ! self)"
  have ops: "pylists h ! ?ops = map Op (entanglement_ops cfg)"
    using Suc.prems(1) v as_items_fields(2) [OF fv] by (simp add: preserved_list valid_def)
  have obj: "objects h ! self = objects h0 ! self"
    using Suc.prems(1) v by (simp add: preserved_obj valid_def)
  have dict: "dicts h ! ?d = entanglement_layer_params cfg"
    using Suc.prems(1) v as_items_fields(4) [OF fv] by (simp add: preserved_dict valid_def)
  have go: "i < length (entanglement_ops cfg)"
    using Suc.hyps(2) by simp
  let ?g = "entanglement_ops cfg ! i"
  let ?res = "call_layer ctor (entanglement_layer cfg) ?g (n_wires cfg) (entanglement_layer_params cfg)"
  obtain h1 where call:
    "call_layer_h (stateless ctor) (entanglement_layer (objects h0 ! self)) (Op ?g)
       (n_wires (objects h0 ! self)) ?d h = (?res, h1)"
    using call_layer_h_stateless [of ctor "entanglement_layer (objects h0 ! self)" ?g
        "n_wires (objects h0 ! self)" ?d h]
    by (auto simp: dict as_items_fields(6,7) [OF fv])
  have p1: "preserved h h1"
    using confined_stateless call by (rule call_layer_h_preserved)
  have p01: "preserved h0 h1"
    using Suc.prems(1) p1 by (rule preserved_trans)
  have r1: "r < length (pylists h1)" "pylists h1 ! r = pylists h ! r"
    using Suc.prems(2) preserved_lengths [OF p1] p1 by (simp_all add: preserved_list)
  have pure: "entanglement_loop ctor cfg [] (drop i (entanglement_ops cfg))
      = (case ?res of Inl e \<Rightarrow> Inl e
         | Inr b \<Rightarrow> map_sum id ((@) [b]) (entanglement_loop ctor cfg [] (drop (Suc i) (entanglement_ops cfg))))"
    using go entanglement_loop_acc [of ctor cfg "[_]" "drop (Suc i) (entanglement_ops cfg)"]
    by (simp flip: Cons_nth_drop_Suc split: sum.split)
  show ?case
  proof (cases ?res)
    case (Inl e)
    have "entanglement_loop_h (stateless ctor) self ?ops r i h = Some (Inl e, h1)"
      using go call Inl by (subst entanglement_loop_h.simps) (simp add: obj ops)
    then show ?thesis
      using p01 r1 pure Inl by simp
  next
    case (Inr b)
    let ?h2 = "append_to r (Blk b) h1"
    have unfold: "entanglement_loop_h (stateless ctor) self ?ops r i h
        = entanglement_loop_h (stateless ctor) self ?ops r (Suc i) ?h2"
      using go call Inr by (subst entanglement_loop_h.simps) (simp add: obj ops)
    have p02: "preserved h0 ?h2"
      using p01 r0 by (rule preserved_append_to)
    have r2: "r < length (pylists ?h2)" "pylists ?h2 ! r = pylists h ! r @ [Blk b]"
      using r1 by (simp_all add: append_to_def)
    have m: "m = length (entanglement_ops cfg) - Suc i"
      using Suc.hyps(2) by simp
    from Suc.hyps(1) [OF m p02 r2(1)] obtain h' where ih:
      "entanglement_loop_h (stateless ctor) self ?ops r (Suc i) ?h2
         = Some (returning ()
                   (entanglement_loop ctor cfg [] (drop (Suc i) (entanglement_ops cfg))), h')"
      "preserved h0 h'" "r < length (pylists h')"
      "\<And>bs. entanglement_loop ctor cfg [] (drop (Suc i) (entanglement_ops cfg)) = Inr bs \<Longrightarrow>
         pylists h' ! r = pylists ?h2 ! r @ map Blk bs"
      by blast
    show ?thesis
      using unfold ih r2(2) pure Inr
      by (cases "entanglement_loop ctor cfg [] (drop (Suc i) (entanglement_ops cfg))") auto
  qed
qed


lemma build_rotation_block_h_stateless:
  fixes cfg :: "'b NLocal"
  assumes v: "valid h self" and fv: "field_values h self = as_items cfg"
  shows "\<exists>h'. build_rotation_block_h (stateless ctor) self h
            = Some (returning (length (pylists h))
                      (rotation_loop ctor cfg [] (rotation_ops cfg)), h')
        \<and> preserved h h' \<and> length (pylists h) < length (pylists h')
        \<and> (\<forall>bs. rotation_loop ctor cfg [] (rotation_ops cfg) = Inr bs \<longrightarrow>
              pylists h' ! length (pylists h) = map Blk bs)"
proof -
  let ?r = "length (pylists h)"
  let ?h1 = "h\<lparr>pylists := pylists h @ [[]]\<rparr>"
  have p: "preserved h ?h1"
    using preserved_new_list [of h] by (simp add: new_list_def)
  from rotation_loop_h_stateless [OF v fv order_refl p, of ctor 0] obtain h' where loop:
    "rotation_loop_h (stateless ctor) self (rotation_ops (objects h ! self)) ?r 0 ?h1
       = Some (returning () (rotation_loop ctor cfg [] (rotation_ops cfg)), h')"
    "preserved h h'" "?r < length (pylists h')"
    "\<And>bs. rotation_loop ctor cfg [] (rotation_ops cfg) = Inr bs \<Longrightarrow>
       pylists h' ! ?r = pylists ?h1 ! ?r @ map Blk bs"
    by auto
  show ?thesis
    using loop
    by (cases "rotation_loop ctor cfg [] (rotation_ops cfg)")
       (auto simp: build_rotation_block_h_def new_list_def)
qed

lemma build_entanglement_block_h_stateless:
  fixes cfg :: "'b NLocal"
  assumes v: "valid h self" and fv: "field_values h self = as_items cfg"
  shows "\<exists>h'. build_entanglement_block_h (stateless ctor) self h
            = Some (returning (length (pylists h))
                      (entanglement_loop ctor cfg [] (entanglement_ops cfg)), h')
        \<and> preserved h h' \<and> length (pylists h) < length (pylists h')
        \<and> (\<forall>bs. entanglement_loop ctor cfg [] (entanglement_ops cfg) = Inr bs \<longrightarrow>
              pylists h' ! length (pylists h) = map Blk bs)"
proof -
  let ?r = "length (pylists h)"
  let ?h1 = "h\<lparr>pylists := pylists h @ [[]]\<rparr>"
  have p: "preserved h ?h1"
    using preserved_new_list [of h] by (simp add: new_list_def)
  from entanglement_loop_h_stateless [OF v fv order_refl p, of ctor 0] obtain h' where loop:
    "entanglement_loop_h (stateless ctor) self (entanglement_ops (objects h ! self)) ?r 0 ?h1
       = Some (returning () (entanglement_loop ctor cfg [] (entanglement_ops cfg)), h')"
    "preserved h h'" "?r < length (pylists h')"
    "\<And>bs. entanglement_loop ctor cfg [] (entanglement_ops cfg) = Inr bs \<Longrightarrow>
       pylists h' ! ?r = pylists ?h1 ! ?r @ map Blk bs"
    by auto
  show ?thesis
    using loop
    by (cases "entanglement_loop ctor cfg [] (entanglement_ops cfg)")
       (auto simp: build_entanglement_block_h_def new_list_def)
qed

lemma reps_loop_h_stateless:
  fixes cfg :: "'b NLocal"
  assumes v: "valid h0 self" and fv: "field_values h0 self = as_items cfg"
    and la0: "length (pylists h0) \<le> la"
  shows "preserved h0 h \<Longrightarrow> la < length (pylists h) \<Longrightarrow> pylists h ! la = map Blk acc \<Longrightarrow>
     \<exists>h'. reps_loop_h (stateless ctor) self la k h
            = Some (returning () (fst (reps_loop ctor k acc cfg)), h')
        \<and> preserved h0 h' \<and> la < length (pylists h')
        \<and> (\<forall>bs. fst (reps_loop ctor k acc cfg) = Inr bs \<longrightarrow> pylists h' ! la = map Blk bs)"
proof (induction k arbitrary: h acc)
  case 0
  then show ?case by simp
next
  case (Suc k)
  have vh: "valid h self"
    using Suc.prems(1) v by (rule preserved_valid)
  have fh: "field_values h self = as_items cfg"
    using preserved_field_values [OF Suc.prems(1) v] fv by simp
  let ?rot = "rotation_loop ctor cfg [] (rotation_ops cfg)"
  let ?ent = "entanglement_loop ctor cfg [] (entanglement_ops cfg)"
  from build_rotation_block_h_stateless [OF vh fh, of ctor] obtain h1 where rot:
    "build_rotation_block_h (stateless ctor) self h
       = Some (returning (length (pylists h)) ?rot, h1)"
    "preserved h h1" "length (pylists h) < length (pylists h1)"
    "\<And>bs. ?rot = Inr bs \<Longrightarrow> pylists h1 ! length (pylists h) = map Blk bs"
    by blast
  have p01: "preserved h0 h1"
    using Suc.prems(1) rot(2) by (rule preserved_trans)
  have la1: "la < length (pylists h1)" "pylists h1 ! la = map Blk acc"
    using Suc.prems(2,3) preserved_lengths [OF rot(2)] rot(2) by (simp_all add: preserved_list)
  show ?case
  proof (cases ?rot)
    case (Inl e)
    then show ?thesis
      using rot(1) p01 la1 by (simp add: build_rotation_block_def)
  next
    case (Inr rs)
    let ?r = "length (pylists h)"
    let ?h1 = "extend_by la ?r h1"
    have p01': "preserved h0 ?h1"
      using p01 la0 by (rule preserved_extend)
    have la1': "la < length (pylists ?h1)" "pylists ?h1 ! la = map Blk (acc @ rs)"
      using la1 rot(4) [OF Inr] by (simp_all add: extend_by_nth extend_by_length)
    have v1: "valid ?h1 self"
      using p01' v by (rule preserved_valid)
    have f1: "field_values ?h1 self = as_items cfg"
      using preserved_field_values [OF p01' v] fv by simp
    from build_entanglement_block_h_stateless [OF v1 f1, of ctor] obtain h2 where ent:
      "build_entanglement_block_h (stateless ctor) self ?h1
         = Some (returning (length (pylists ?h1)) ?ent, h2)"
      "preserved ?h1 h2" "length (pylists ?h1) < length (pylists h2)"
      "\<And>bs. ?ent = Inr bs \<Longrightarrow> pylists h2 ! length (pylists ?h1) = map Blk bs"
      by blast
    have p02: "preserved h0 h2"
      using p01' ent(2) by (rule preserved_trans)
    have la2: "la < length (pylists h2)" "pylists h2 ! la = map Blk (acc @ rs)"
      using la1' preserved_lengths [OF ent(2)] ent(2) by (simp_all add: preserved_list)
    show ?thesis
    proof (cases ?ent)
      case (Inl e)
      then show ?thesis
        using rot(1) Inr ent(1) p02 la2
        by (simp add: build_rotation_block_def build_entanglement_block_def)
    next
      case ent_ok: (Inr es)
      let ?s = "length (pylists ?h1)"
      let ?h2 = "extend_by la ?s h2"
      have p02': "preserved h0 ?h2"
        using p02 la0 by (rule preserved_extend)
      have la2': "la < length (pylists ?h2)" "pylists ?h2 ! la = map Blk ((acc @ rs) @ es)"
        using la2 ent(4) [OF ent_ok] by (simp_all add: extend_by_nth extend_by_length)
      from Suc.IH [OF p02' la2'] obtain h' where ih:
        "reps_loop_h (stateless ctor) self la k ?h2
           = Some (returning () (fst (reps_loop ctor k ((acc @ rs) @ es) cfg)), h')"
        "preserved h0 h'" "la < length (pylists h')"
        "\<And>bs. fst (reps_loop ctor k ((acc @ rs) @ es) cfg) = Inr bs \<Longrightarrow>
           pylists h' ! la = map Blk bs"
        by blast
      show ?thesis
        using rot(1) Inr ent(1) ent_ok ih
        by (simp add: build_rotation_block_def build_entanglement_block_def)
    qed
  qed
qed

text \<open>
  With a constructor that keeps no state, a build on the store is the build of the first
  part on the field values: the same exception, or a list holding the same blocks.
\<close>

lemma build_layers_h_stateless:
  fixes cfg :: "'b NLocal"
  assumes v: "valid h self" and fv: "field_values h self = as_items cfg"
  shows "\<exists>h'. build_layers_h (stateless ctor) self h
            = Some (returning (length (pylists h)) (fst (build_layers ctor cfg)), h')
        \<and> (\<forall>bs. fst (build_layers ctor cfg) = Inr bs \<longrightarrow>
              pylists h' ! length (pylists h) = map Blk bs)"
proof -
  let ?la = "length (pylists h)"
  let ?h0 = "h\<lparr>pylists := pylists h @ [[]]\<rparr>"
  let ?init = "case initial_circuit cfg of None \<Rightarrow> [] | Some c \<Rightarrow> [c]"
  let ?h1 = "case initial_circuit cfg of
               None \<Rightarrow> ?h0 | Some c \<Rightarrow> append_to ?la (Blk c) ?h0"
  let ?k = "nat (reps cfg)"
  have p0: "preserved h ?h0"
    using preserved_new_list [of h] by (simp add: new_list_def)
  have p1: "preserved h ?h1"
    using p0 by (simp add: preserved_append_to split: option.split)
  have la1: "?la < length (pylists ?h1)" "pylists ?h1 ! ?la = map Blk ?init"
    by (simp_all add: append_to_def split: option.split)
  have obj1: "objects ?h1 ! self = objects h ! self"
    using p1 v by (simp add: preserved_obj valid_def)
  from reps_loop_h_stateless [OF v fv order_refl p1 la1, of ctor ?k] obtain h2 where loop:
    "reps_loop_h (stateless ctor) self ?la ?k ?h1
       = Some (returning () (fst (reps_loop ctor ?k ?init cfg)), h2)"
    "preserved h h2" "?la < length (pylists h2)"
    "\<And>bs. fst (reps_loop ctor ?k ?init cfg) = Inr bs \<Longrightarrow> pylists h2 ! ?la = map Blk bs"
    by blast
  have unfold: "build_layers_h (stateless ctor) self h =
      (case Some (returning () (fst (reps_loop ctor ?k ?init cfg)), h2) of
         None \<Rightarrow> None
       | Some (Inl e, h2) \<Rightarrow> Some (Inl e, h2)
       | Some (Inr u, h2) \<Rightarrow>
           if \<not> skip_final_rotation_layer (objects h2 ! self) then
             (case build_rotation_block_h (stateless ctor) self h2 of
                None \<Rightarrow> None
              | Some (Inl e, h3) \<Rightarrow> Some (Inl e, h3)
              | Some (Inr rs, h3) \<Rightarrow> Some (Inr ?la, extend_by ?la rs h3))
           else Some (Inr ?la, h2))"
    unfolding build_layers_h_def new_list_def
    by (simp add: obj1 as_items_fields(8,9) [OF fv] loop(1) Let_def)
  have obj2: "objects h2 ! self = objects h ! self"
    using loop(2) v by (simp add: preserved_obj valid_def)
  have skip: "skip_final_rotation_layer (objects h2 ! self) = skip_final_rotation_layer cfg"
    using obj2 as_items_fields(10) [OF fv] by simp
  show ?thesis
  proof (cases "fst (reps_loop ctor ?k ?init cfg)")
    case (Inl e)
    then show ?thesis
      using unfold by (simp add: build_layers_fst)
  next
    case (Inr bs)
    show ?thesis
    proof (cases "skip_final_rotation_layer cfg")
      case True
      then show ?thesis
        using unfold Inr skip loop(4) [OF Inr] by (simp add: build_layers_fst)
    next
      case False
      have v2: "valid h2 self"
        using loop(2) v by (rule preserved_valid)
      have f2: "field_values h2 self = as_items cfg"
        using preserved_field_values [OF loop(2) v] fv by simp
      let ?rot = "rotation_loop ctor cfg [] (rotation_ops cfg)"
      from build_rotation_block_h_stateless [OF v2 f2, of ctor] obtain h3 where rot:
        "build_rotation_block_h (stateless ctor) self h2
           = Some (returning (length (pylists h2)) ?rot, h3)"
        "preserved h2 h3" "length (pylists h2) < length (pylists h3)"
        "\<And>rs. ?rot = Inr rs \<Longrightarrow> pylists h3 ! length (pylists h2) = map Blk rs"
        by blast
      have la3: "?la < length (pylists h3)" "pylists h3 ! ?la = map Blk bs"
        using loop(3) loop(4) [OF Inr] preserved_lengths [OF rot(2)] rot(2)
        by (simp_all add: preserved_list)
      show ?thesis
      proof (cases ?rot)
        case (Inl e)
        then show ?thesis
          using unfold Inr False skip rot(1) by (simp add: build_layers_fst)
      next
        case rot_ok: (Inr rs)
        have "pylists (extend_by ?la (length (pylists h2)) h3) ! ?la = map Blk (bs @ rs)"
          using la3 rot(4) [OF rot_ok] by (simp add: extend_by_nth)
        then show ?thesis
          using unfold Inr False skip rot(1) rot_ok by (simp add: build_layers_fst)
      qed
    qed
  qed
qed

section \<open>The configuration is only read\<close>

text \<open>
  Claim C10. For every layer constructor that, of the objects existing when it is
  called, writes at most the dictionary of keyword arguments it was handed:
  \<^verbatim>\<open>build_layers\<close>, \<^verbatim>\<open>build_rotation_block\<close> and \<^verbatim>\<open>build_entanglement_block\<close> return,
  and every template object, dictionary and list that existed before the call is in the
  store after it, at its address and with its content. So \<^verbatim>\<open>rotation_ops\<close>,
  \<^verbatim>\<open>entanglement_ops\<close>, the two parameter dictionaries, \<open>reps\<close>, \<^verbatim>\<open>initial_circuit\<close>
  and \<^verbatim>\<open>skip_final_rotation_layer\<close> have the values they had, whether the call returns
  a sequence or raises, and a dictionary shared with other templates, such as a default
  \<^verbatim>\<open>{}\<close>, is never written: what a constructor writes is the copy made by the
  unpacking.
\<close>

theorem build_preserves_configuration:
  assumes "confined ctor" and "valid h self"
  shows "(\<exists>res h'. build_layers_h ctor self h = Some (res, h')
            \<and> preserved h h' \<and> field_values h' self = field_values h self)
       \<and> (\<exists>res h'. build_rotation_block_h ctor self h = Some (res, h')
            \<and> preserved h h' \<and> field_values h' self = field_values h self)
       \<and> (\<exists>res h'. build_entanglement_block_h ctor self h = Some (res, h')
            \<and> preserved h h' \<and> field_values h' self = field_values h self)"
  using build_layers_h_returns [OF assms] build_rotation_block_h_returns [OF assms]
    build_entanglement_block_h_returns [OF assms] assms(2)
  by (meson preserved_field_values)

text \<open>
  In the witness the constructor writes a seed into the keyword arguments of each of
  its three calls. The seeds are in the three copies at addresses 2, 3 and 4; the two
  shared dictionaries at addresses 0 and 1 are empty as before.
\<close>

theorem build_preserves_configuration_witness:
  "confined seeded \<and> valid store 0
   \<and> build_layers_h seeded 0 store
     = Some (Inr 2,
         \<lparr> objects = [template, template\<lparr>reps := 2\<rparr>],
           dicts = [Map.empty, Map.empty,
                    [''seed'' \<mapsto> PyInt 7], [''seed'' \<mapsto> PyInt 8], [''seed'' \<mapsto> PyInt 9]],
           pylists = [[Op RY], [Op CNOT],
                    [Blk (Built Op1QAllLayer RY 2 [''seed'' \<mapsto> PyInt 7]),
                     Blk (Built Op2QAllLayer CNOT 2 [''seed'' \<mapsto> PyInt 8]),
                     Blk (Built Op1QAllLayer RY 2 [''seed'' \<mapsto> PyInt 9])],
                    [Blk (Built Op1QAllLayer RY 2 [''seed'' \<mapsto> PyInt 7])],
                    [Blk (Built Op2QAllLayer CNOT 2 [''seed'' \<mapsto> PyInt 8])],
                    [Blk (Built Op1QAllLayer RY 2 [''seed'' \<mapsto> PyInt 9])]],
           world = 10 \<rparr>)
   \<and> preserved store
         \<lparr> objects = [template, template\<lparr>reps := 2\<rparr>],
           dicts = [Map.empty, Map.empty,
                    [''seed'' \<mapsto> PyInt 7], [''seed'' \<mapsto> PyInt 8], [''seed'' \<mapsto> PyInt 9]],
           pylists = [[Op RY], [Op CNOT],
                    [Blk (Built Op1QAllLayer RY 2 [''seed'' \<mapsto> PyInt 7]),
                     Blk (Built Op2QAllLayer CNOT 2 [''seed'' \<mapsto> PyInt 8]),
                     Blk (Built Op1QAllLayer RY 2 [''seed'' \<mapsto> PyInt 9])],
                    [Blk (Built Op1QAllLayer RY 2 [''seed'' \<mapsto> PyInt 7])],
                    [Blk (Built Op2QAllLayer CNOT 2 [''seed'' \<mapsto> PyInt 8])],
                    [Blk (Built Op1QAllLayer RY 2 [''seed'' \<mapsto> PyInt 9])]],
           world = 10 \<rparr>"
proof -
  let ?h' = "\<lparr> objects = [template, template\<lparr>reps := 2\<rparr>],
           dicts = [Map.empty, Map.empty,
                    [''seed'' \<mapsto> PyInt 7], [''seed'' \<mapsto> PyInt 8], [''seed'' \<mapsto> PyInt 9]],
           pylists = [[Op RY], [Op CNOT],
                    [Blk (Built Op1QAllLayer RY 2 [''seed'' \<mapsto> PyInt 7]),
                     Blk (Built Op2QAllLayer CNOT 2 [''seed'' \<mapsto> PyInt 8]),
                     Blk (Built Op1QAllLayer RY 2 [''seed'' \<mapsto> PyInt 9])],
                    [Blk (Built Op1QAllLayer RY 2 [''seed'' \<mapsto> PyInt 7])],
                    [Blk (Built Op2QAllLayer CNOT 2 [''seed'' \<mapsto> PyInt 8])],
                    [Blk (Built Op1QAllLayer RY 2 [''seed'' \<mapsto> PyInt 9])]],
           world = 10 :: nat \<rparr>"
  have c: "confined seeded"
    by (rule confined_seeded)
  have v: "valid store 0"
    by (simp add: valid_def store_def template_def)
  have run: "build_layers_h seeded 0 store = Some (Inr 2, ?h')"
    by (simp add: build_layers_h_def build_rotation_block_h_def build_entanglement_block_h_def
          new_list_def rotation_loop_h.simps entanglement_loop_h.simps call_layer_h_def
          new_dict_def seeded_def append_to_def extend_by_def Let_def store_def template_def)
  from build_preserves_configuration [OF c v] run have "preserved store ?h'"
    by auto
  with c v run show ?thesis
    by simp
qed

section \<open>The result depends on the configuration fields only\<close>

text \<open>
  Claim C5. Take two invocations of \<^verbatim>\<open>build_layers\<close>, in any two stores and worlds, on
  templates whose fields have the same values (operation lists, layer kinds, parameter
  dictionaries, \<open>reps\<close>, \<^verbatim>\<open>initial_circuit\<close>, \<^verbatim>\<open>skip_final_rotation_layer\<close>, wire
  count). If both return a sequence, the two sequences start with the same initial
  circuit, if any, have the same length, and the blocks at each position were constructed
  by the same call: the same layer, operation, wire count and keyword arguments, namely
  those that the field values alone determine. The blocks themselves may differ where a
  constructor draws on the world.
\<close>

theorem build_layers_calls_from_fields:
  assumes "confined ctor" and "valid h1 s1" and "valid h2 s2"
    and "field_values h1 s1 = field_values h2 s2"
    and "build_layers_h ctor s1 h1 = Some (Inr la1, h1')"
    and "build_layers_h ctor s2 h2 = Some (Inr la2, h2')"
  shows "\<exists>bs1 bs2.
      pylists h1' ! la1
        = (case initial_circuit (field_values h1 s1) of None \<Rightarrow> [] | Some c \<Rightarrow> [Blk c])
          @ map Blk bs1
    \<and> pylists h2' ! la2
        = (case initial_circuit (field_values h1 s1) of None \<Rightarrow> [] | Some c \<Rightarrow> [Blk c])
          @ map Blk bs2
    \<and> list_all2 (built_by ctor) (block_calls (field_values h1 s1)) bs1
    \<and> list_all2 (built_by ctor) (block_calls (field_values h1 s1)) bs2
    \<and> length (pylists h1' ! la1) = length (pylists h2' ! la2)"
proof -
  from build_layers_h_returns [OF assms(1,2)] assms(5) obtain bs1 where bs1:
    "pylists h1' ! la1
       = (case initial_circuit (field_values h1 s1) of None \<Rightarrow> [] | Some c \<Rightarrow> [Blk c])
         @ map Blk bs1"
    "list_all2 (built_by ctor) (block_calls (field_values h1 s1)) bs1"
    by auto
  from build_layers_h_returns [OF assms(1,3)] assms(6) obtain bs2 where bs2:
    "pylists h2' ! la2
       = (case initial_circuit (field_values h1 s1) of None \<Rightarrow> [] | Some c \<Rightarrow> [Blk c])
         @ map Blk bs2"
    "list_all2 (built_by ctor) (block_calls (field_values h1 s1)) bs2"
    unfolding assms(4) by auto
  have "length bs1 = length bs2"
    using bs1(2) bs2(2) by (simp add: list_all2_lengthD [symmetric])
  then have "length (pylists h1' ! la1) = length (pylists h2' ! la2)"
    using bs1(1) bs2(1) by simp
  with bs1 bs2 show ?thesis
    by blast
qed

text \<open>
  In the witness the two templates lie at different addresses of different stores, and
  the seeds drawn from the two worlds differ; the calls are the same.
\<close>

theorem build_layers_calls_from_fields_witness:
  "confined seeded \<and> valid store 0 \<and> valid other_store 1
   \<and> field_values store 0 = field_values other_store 1
   \<and> build_layers_h seeded 0 store
     = Some (Inr 2,
         \<lparr> objects = [template, template\<lparr>reps := 2\<rparr>],
           dicts = [Map.empty, Map.empty,
                    [''seed'' \<mapsto> PyInt 7], [''seed'' \<mapsto> PyInt 8], [''seed'' \<mapsto> PyInt 9]],
           pylists = [[Op RY], [Op CNOT],
                    [Blk (Built Op1QAllLayer RY 2 [''seed'' \<mapsto> PyInt 7]),
                     Blk (Built Op2QAllLayer CNOT 2 [''seed'' \<mapsto> PyInt 8]),
                     Blk (Built Op1QAllLayer RY 2 [''seed'' \<mapsto> PyInt 9])],
                    [Blk (Built Op1QAllLayer RY 2 [''seed'' \<mapsto> PyInt 7])],
                    [Blk (Built Op2QAllLayer CNOT 2 [''seed'' \<mapsto> PyInt 8])],
                    [Blk (Built Op1QAllLayer RY 2 [''seed'' \<mapsto> PyInt 9])]],
           world = 10 \<rparr>)
   \<and> build_layers_h seeded 1 other_store
     = Some (Inr 3,
         \<lparr> objects = [template\<lparr>reps := 5\<rparr>,
                   template\<lparr>rotation_ops := 2, rotation_layer_params := 1,
                             entanglement_ops := 0, entanglement_layer_params := 2\<rparr>],
           dicts = [[''jump'' \<mapsto> PyInt 2], Map.empty, Map.empty,
                    [''seed'' \<mapsto> PyInt 40], [''seed'' \<mapsto> PyInt 41], [''seed'' \<mapsto> PyInt 42]],
           pylists = [[Op CNOT], [Op RXX, Op RYY], [Op RY],
                    [Blk (Built Op1QAllLayer RY 2 [''seed'' \<mapsto> PyInt 40]),
                     Blk (Built Op2QAllLayer CNOT 2 [''seed'' \<mapsto> PyInt 41]),
                     Blk (Built Op1QAllLayer RY 2 [''seed'' \<mapsto> PyInt 42])],
                    [Blk (Built Op1QAllLayer RY 2 [''seed'' \<mapsto> PyInt 40])],
                    [Blk (Built Op2QAllLayer CNOT 2 [''seed'' \<mapsto> PyInt 41])],
                    [Blk (Built Op1QAllLayer RY 2 [''seed'' \<mapsto> PyInt 42])]],
           world = 43 \<rparr>)
   \<and> block_calls (field_values store 0)
     = [(Layer Op1QAllLayer, Op RY, 2, Map.empty), (Layer Op2QAllLayer, Op CNOT, 2, Map.empty),
          (Layer Op1QAllLayer, Op RY, 2, Map.empty)]
   \<and> list_all2 (built_by seeded)
        [(Layer Op1QAllLayer, Op RY, 2, Map.empty), (Layer Op2QAllLayer, Op CNOT, 2, Map.empty),
          (Layer Op1QAllLayer, Op RY, 2, Map.empty)]
        [Built Op1QAllLayer RY 2 [''seed'' \<mapsto> PyInt 7], Built Op2QAllLayer CNOT 2 [''seed'' \<mapsto> PyInt 8],
          Built Op1QAllLayer RY 2 [''seed'' \<mapsto> PyInt 9]]
   \<and> list_all2 (built_by seeded)
        [(Layer Op1QAllLayer, Op RY, 2, Map.empty), (Layer Op2QAllLayer, Op CNOT, 2, Map.empty),
          (Layer Op1QAllLayer, Op RY, 2, Map.empty)]
        [Built Op1QAllLayer RY 2 [''seed'' \<mapsto> PyInt 40], Built Op2QAllLayer CNOT 2 [''seed'' \<mapsto> PyInt 41],
          Built Op1QAllLayer RY 2 [''seed'' \<mapsto> PyInt 42]]"
proof -
  let ?h1 = "\<lparr> objects = [template, template\<lparr>reps := 2\<rparr>],
           dicts = [Map.empty, Map.empty,
                    [''seed'' \<mapsto> PyInt 7], [''seed'' \<mapsto> PyInt 8], [''seed'' \<mapsto> PyInt 9]],
           pylists = [[Op RY], [Op CNOT],
                    [Blk (Built Op1QAllLayer RY 2 [''seed'' \<mapsto> PyInt 7]),
                     Blk (Built Op2QAllLayer CNOT 2 [''seed'' \<mapsto> PyInt 8]),
                     Blk (Built Op1QAllLayer RY 2 [''seed'' \<mapsto> PyInt 9])],
                    [Blk (Built Op1QAllLayer RY 2 [''seed'' \<mapsto> PyInt 7])],
                    [Blk (Built Op2QAllLayer CNOT 2 [''seed'' \<mapsto> PyInt 8])],
                    [Blk (Built Op1QAllLayer RY 2 [''seed'' \<mapsto> PyInt 9])]],
           world = 10 \<rparr> :: (block, nat) heap"
  let ?h2 = "\<lparr> objects = [template\<lparr>reps := 5\<rparr>,
                   template\<lparr>rotation_ops := 2, rotation_layer_params := 1,
                             entanglement_ops := 0, entanglement_layer_params := 2\<rparr>],
           dicts = [[''jump'' \<mapsto> PyInt 2], Map.empty, Map.empty,
                    [''seed'' \<mapsto> PyInt 40], [''seed'' \<mapsto> PyInt 41], [''seed'' \<mapsto> PyInt 42]],
           pylists = [[Op CNOT], [Op RXX, Op RYY], [Op RY],
                    [Blk (Built Op1QAllLayer RY 2 [''seed'' \<mapsto> PyInt 40]),
                     Blk (Built Op2QAllLayer CNOT 2 [''seed'' \<mapsto> PyInt 41]),
                     Blk (Built Op1QAllLayer RY 2 [''seed'' \<mapsto> PyInt 42])],
                    [Blk (Built Op1QAllLayer RY 2 [''seed'' \<mapsto> PyInt 40])],
                    [Blk (Built Op2QAllLayer CNOT 2 [''seed'' \<mapsto> PyInt 41])],
                    [Blk (Built Op1QAllLayer RY 2 [''seed'' \<mapsto> PyInt 42])]],
           world = 43 \<rparr> :: (block, nat) heap"
  have c: "confined seeded"
    by (rule confined_seeded)
  have v1: "valid store 0" and v2: "valid other_store 1"
    by (simp_all add: valid_def store_def other_store_def template_def)
  have f: "field_values store 0 = field_values other_store 1"
    by (simp add: field_values_def store_def other_store_def template_def)
  have run1: "build_layers_h seeded 0 store = Some (Inr 2, ?h1)"
    by (simp add: build_layers_h_def build_rotation_block_h_def build_entanglement_block_h_def
          new_list_def rotation_loop_h.simps entanglement_loop_h.simps call_layer_h_def
          new_dict_def seeded_def append_to_def extend_by_def Let_def store_def template_def)
  have run2: "build_layers_h seeded 1 other_store = Some (Inr 3, ?h2)"
    by (simp add: build_layers_h_def build_rotation_block_h_def build_entanglement_block_h_def
          new_list_def rotation_loop_h.simps entanglement_loop_h.simps call_layer_h_def
          new_dict_def seeded_def append_to_def extend_by_def Let_def other_store_def template_def)
  have calls: "block_calls (field_values store 0)
     = [(Layer Op1QAllLayer, Op RY, 2, Map.empty), (Layer Op2QAllLayer, Op CNOT, 2, Map.empty),
          (Layer Op1QAllLayer, Op RY, 2, Map.empty)]"
    by (simp add: block_calls_def rotation_calls_def entanglement_calls_def field_values_def
          store_def template_def)
  from build_layers_calls_from_fields [OF c v1 v2 f run1 run2] obtain bs1 bs2 where bs:
    "pylists ?h1 ! 2
       = (case initial_circuit (field_values store 0) of None \<Rightarrow> [] | Some c \<Rightarrow> [Blk c])
         @ map Blk bs1"
    "pylists ?h2 ! 3
       = (case initial_circuit (field_values store 0) of None \<Rightarrow> [] | Some c \<Rightarrow> [Blk c])
         @ map Blk bs2"
    "list_all2 (built_by seeded) (block_calls (field_values store 0)) bs1"
    "list_all2 (built_by seeded) (block_calls (field_values store 0)) bs2"
    by blast
  have i: "initial_circuit (field_values store 0) = None"
    by (simp add: field_values_def store_def template_def)
  have "bs1 = [Built Op1QAllLayer RY 2 [''seed'' \<mapsto> PyInt 7], Built Op2QAllLayer CNOT 2 [''seed'' \<mapsto> PyInt 8],
          Built Op1QAllLayer RY 2 [''seed'' \<mapsto> PyInt 9]]"
    using bs(1) unfolding i by (auto simp: map_eq_Cons_conv)
  moreover have "bs2 = [Built Op1QAllLayer RY 2 [''seed'' \<mapsto> PyInt 40], Built Op2QAllLayer CNOT 2 [''seed'' \<mapsto> PyInt 41],
          Built Op1QAllLayer RY 2 [''seed'' \<mapsto> PyInt 42]]"
    using bs(2) unfolding i by (auto simp: map_eq_Cons_conv)
  ultimately show ?thesis
    using c v1 v2 f run1 run2 calls bs(3,4) by simp
qed

end
